theory Spec2Isabelle
  imports Main "HOL-Library.Multiset"
begin

section \<open>Data model of the Link game\<close>

text \<open>
  A pattern object \<^verbatim>\<open>{ id, color, shape, name }\<close> (generatePatterns). The field
  \<^verbatim>\<open>id\<close> is written \<open>pid\<close>; only it is read by the connection engine.
\<close>

record pattern =
  pid :: nat
  color :: string
  shape :: string
  pname :: string

text \<open>
  A corner object \<^verbatim>\<open>{ row, col }\<close>, and a cell object, which has the fields of a corner
  and \<^verbatim>\<open>pattern\<close> (null or a pattern), \<^verbatim>\<open>visible\<close>, \<^verbatim>\<open>matched\<close>. The line checks of the
  source receive both cells and corners and read only \<^verbatim>\<open>row\<close> and \<^verbatim>\<open>col\<close>; the record
  extension gives them the same freedom. The screen coordinates of a cell are rendering
  data and are left out.

  The source compares cells with \<^verbatim>\<open>===\<close> (object identity). The cell stored at
  \<^verbatim>\<open>grid[row][col]\<close> carries these very \<^verbatim>\<open>row\<close> and \<^verbatim>\<open>col\<close> (initializeGrid,
  createGridCopy), so two cells of one grid are the same object exactly when their
  records are equal; the model writes \<^verbatim>\<open>===\<close> as equality of records.
\<close>

record corner =
  row :: int
  col :: int

record cell = corner +
  pattern :: "pattern option"
  visible :: bool
  matched :: bool

text \<open>A point \<^verbatim>\<open>{ x, y }\<close> of a connection path: \<open>px\<close> is a column, \<open>py\<close> a row.\<close>

record point =
  px :: int
  py :: int

text \<open>
  The object built by \<^verbatim>\<open>new LinkGameAlgorithm(grid)\<close>: the grid and the two dimensions
  the constructor reads off it. The constructor reads \<^verbatim>\<open>grid[0].length\<close>, which throws
  on a grid without rows: that is the \<open>None\<close> of \<open>LinkGameAlgorithm\<close>.
\<close>

record algo =
  grid :: "cell list list"
  gridRows :: int
  gridCols :: int

definition LinkGameAlgorithm :: "cell list list \<Rightarrow> algo option" where
  "LinkGameAlgorithm g =
     (case g of
        [] \<Rightarrow> None
      | r0 # _ \<Rightarrow> Some \<lparr>grid = g, gridRows = int (length g), gridCols = int (length r0)\<rparr>)"

section \<open>The connection engine (class LinkGameAlgorithm)\<close>

text \<open>
  isValidCell: the cell lies within the dimensions of the object. A cell passed to the
  model is a cell object, so the test \<^verbatim>\<open>!cell\<close> of the source is always false.
\<close>

definition isValidCell :: "algo \<Rightarrow> 'a corner_scheme \<Rightarrow> bool" where
  "isValidCell A c =
     (if row c < 0 \<or> row c \<ge> gridRows A then False
      else if col c < 0 \<or> col c \<ge> gridCols A then False
      else True)"

text \<open>
  isCellEmpty: a position outside the board is not empty; inside, the cell is empty when
  it is not visible or is matched. The read \<^verbatim>\<open>this.grid[row][col]\<close> happens only after the
  bounds check.
\<close>

definition isCellEmpty :: "algo \<Rightarrow> int \<Rightarrow> int \<Rightarrow> bool" where
  "isCellEmpty A r c =
     (if r < 0 \<or> r \<ge> gridRows A \<or> c < 0 \<or> c \<ge> gridCols A then False
      else (let cl = grid A ! nat r ! nat c in \<not> visible cl \<or> matched cl))"

definition isValidCorner :: "algo \<Rightarrow> 'a corner_scheme \<Rightarrow> bool" where
  "isValidCorner A cn = isCellEmpty A (row cn) (col cn)"

text \<open>
  The two line checks loop over the positions strictly between the two ends and return
  false at the first one that is not empty.
\<close>

definition checkHorizontalLine :: "algo \<Rightarrow> 'a corner_scheme \<Rightarrow> 'b corner_scheme \<Rightarrow> bool" where
  "checkHorizontalLine A c1 c2 =
     (let minCol = min (col c1) (col c2); maxCol = max (col c1) (col c2)
      in list_all (\<lambda>c. isCellEmpty A (row c1) c) [minCol + 1 .. maxCol - 1])"

definition checkVerticalLine :: "algo \<Rightarrow> 'a corner_scheme \<Rightarrow> 'b corner_scheme \<Rightarrow> bool" where
  "checkVerticalLine A c1 c2 =
     (let minRow = min (row c1) (row c2); maxRow = max (row c1) (row c2)
      in list_all (\<lambda>r. isCellEmpty A r (col c1)) [minRow + 1 .. maxRow - 1])"

definition checkStraightLine :: "algo \<Rightarrow> 'a corner_scheme \<Rightarrow> 'b corner_scheme \<Rightarrow> bool" where
  "checkStraightLine A c1 c2 =
     (if row c1 = row c2 then checkHorizontalLine A c1 c2
      else if col c1 = col c2 then checkVerticalLine A c1 c2
      else False)"

text \<open>
  checkOneCorner returns \<^verbatim>\<open>{ type: 'one-corner', corners: [corner] }\<close> or false; the
  model returns the corner, or \<open>None\<close> for false.
\<close>

definition checkOneCorner :: "algo \<Rightarrow> 'a corner_scheme \<Rightarrow> 'b corner_scheme \<Rightarrow> corner option" where
  "checkOneCorner A c1 c2 =
     (let corner1 = \<lparr>row = row c1, col = col c2\<rparr>;
          corner2 = \<lparr>row = row c2, col = col c1\<rparr>
      in if isValidCorner A corner1 \<and> checkStraightLine A c1 corner1
            \<and> checkStraightLine A corner1 c2 then Some corner1
         else if isValidCorner A corner2 \<and> checkStraightLine A c1 corner2
            \<and> checkStraightLine A corner2 c2 then Some corner2
         else None)"

text \<open>
  checkTwoCorners: the first loop runs over the rows \<open>0 .. gridRows - 1\<close>, the second over
  the columns \<open>0 .. gridCols - 1\<close>; each returns at its first success. \<open>scanRows\<close> and
  \<open>scanCols\<close> are the two loops, as recursion over the indices still to visit.
\<close>

fun scanRows :: "algo \<Rightarrow> 'a corner_scheme \<Rightarrow> 'b corner_scheme \<Rightarrow> int list
    \<Rightarrow> (corner \<times> corner) option" where
  "scanRows A c1 c2 [] = None"
| "scanRows A c1 c2 (r # rs) =
     (if r = row c1 \<or> r = row c2 then scanRows A c1 c2 rs
      else (let corner1 = \<lparr>row = r, col = col c1\<rparr>;
                corner2 = \<lparr>row = r, col = col c2\<rparr>
            in if isValidCorner A corner1 \<and> isValidCorner A corner2 then
                 (if checkStraightLine A c1 corner1 \<and> checkHorizontalLine A corner1 corner2
                     \<and> checkStraightLine A corner2 c2
                  then Some (corner1, corner2)
                  else scanRows A c1 c2 rs)
               else scanRows A c1 c2 rs))"

fun scanCols :: "algo \<Rightarrow> 'a corner_scheme \<Rightarrow> 'b corner_scheme \<Rightarrow> int list
    \<Rightarrow> (corner \<times> corner) option" where
  "scanCols A c1 c2 [] = None"
| "scanCols A c1 c2 (c # cs) =
     (if c = col c1 \<or> c = col c2 then scanCols A c1 c2 cs
      else (let corner1 = \<lparr>row = row c1, col = c\<rparr>;
                corner2 = \<lparr>row = row c2, col = c\<rparr>
            in if isValidCorner A corner1 \<and> isValidCorner A corner2 then
                 (if checkStraightLine A c1 corner1 \<and> checkVerticalLine A corner1 corner2
                     \<and> checkStraightLine A corner2 c2
                  then Some (corner1, corner2)
                  else scanCols A c1 c2 cs)
               else scanCols A c1 c2 cs))"

definition checkTwoCorners :: "algo \<Rightarrow> 'a corner_scheme \<Rightarrow> 'b corner_scheme
    \<Rightarrow> (corner \<times> corner) option" where
  "checkTwoCorners A c1 c2 =
     (case scanRows A c1 c2 [0 .. gridRows A - 1] of
        Some cs \<Rightarrow> Some cs
      | None \<Rightarrow> scanCols A c1 c2 [0 .. gridCols A - 1])"

text \<open>
  canConnect returns the value of
  \<^verbatim>\<open>checkStraightLine(..) || checkOneCorner(..) || checkTwoCorners(..)\<close>, which callers use
  as a condition; the model returns its truth value (a result object is truthy).
\<close>

definition canConnect :: "algo \<Rightarrow> cell \<Rightarrow> cell \<Rightarrow> bool" where
  "canConnect A cell1 cell2 =
     (if \<not> isValidCell A cell1 \<or> \<not> isValidCell A cell2 then False
      else if cell1 = cell2 then False
      else if pattern cell1 = None \<or> pattern cell2 = None then False
      else if pid (the (pattern cell1)) \<noteq> pid (the (pattern cell2)) then False
      else checkStraightLine A cell1 cell2
           \<or> checkOneCorner A cell1 cell2 \<noteq> None
           \<or> checkTwoCorners A cell1 cell2 \<noteq> None)"

text \<open>getConnectionPath: \<open>None\<close> is the null of the source.\<close>

definition getConnectionPath :: "algo \<Rightarrow> cell \<Rightarrow> cell \<Rightarrow> point list option" where
  "getConnectionPath A cell1 cell2 =
     (if checkStraightLine A cell1 cell2 then
        Some [\<lparr>px = col cell1, py = row cell1\<rparr>, \<lparr>px = col cell2, py = row cell2\<rparr>]
      else
        (case checkOneCorner A cell1 cell2 of
           Some cn \<Rightarrow>
             Some [\<lparr>px = col cell1, py = row cell1\<rparr>, \<lparr>px = col cn, py = row cn\<rparr>,
                   \<lparr>px = col cell2, py = row cell2\<rparr>]
         | None \<Rightarrow>
             (case checkTwoCorners A cell1 cell2 of
                Some (corner1, corner2) \<Rightarrow>
                  Some [\<lparr>px = col cell1, py = row cell1\<rparr>, \<lparr>px = col corner1, py = row corner1\<rparr>,
                        \<lparr>px = col corner2, py = row corner2\<rparr>, \<lparr>px = col cell2, py = row cell2\<rparr>]
              | None \<Rightarrow> None)))"

text \<open>
  Names for the conditions the corner searches test. \<open>cornerOK\<close> is the condition of
  checkOneCorner on one candidate corner; \<open>rowOK\<close> and \<open>colOK\<close> are the conditions under
  which the row loop and the column loop of checkTwoCorners return at an index.
\<close>

definition cornerOK :: "algo \<Rightarrow> 'a corner_scheme \<Rightarrow> 'b corner_scheme \<Rightarrow> corner \<Rightarrow> bool" where
  "cornerOK A c1 c2 cn =
     (isValidCorner A cn \<and> checkStraightLine A c1 cn \<and> checkStraightLine A cn c2)"

definition rowOK :: "algo \<Rightarrow> 'a corner_scheme \<Rightarrow> 'b corner_scheme \<Rightarrow> int \<Rightarrow> bool" where
  "rowOK A c1 c2 r =
     (r \<noteq> row c1 \<and> r \<noteq> row c2
      \<and> isValidCorner A \<lparr>row = r, col = col c1\<rparr> \<and> isValidCorner A \<lparr>row = r, col = col c2\<rparr>
      \<and> checkStraightLine A c1 \<lparr>row = r, col = col c1\<rparr>
      \<and> checkHorizontalLine A \<lparr>row = r, col = col c1\<rparr> \<lparr>row = r, col = col c2\<rparr>
      \<and> checkStraightLine A \<lparr>row = r, col = col c2\<rparr> c2)"

definition colOK :: "algo \<Rightarrow> 'a corner_scheme \<Rightarrow> 'b corner_scheme \<Rightarrow> int \<Rightarrow> bool" where
  "colOK A c1 c2 c =
     (c \<noteq> col c1 \<and> c \<noteq> col c2
      \<and> isValidCorner A \<lparr>row = row c1, col = c\<rparr> \<and> isValidCorner A \<lparr>row = row c2, col = c\<rparr>
      \<and> checkStraightLine A c1 \<lparr>row = row c1, col = c\<rparr>
      \<and> checkVerticalLine A \<lparr>row = row c1, col = c\<rparr> \<lparr>row = row c2, col = c\<rparr>
      \<and> checkStraightLine A \<lparr>row = row c2, col = c\<rparr> c2)"

section \<open>The variant used by the elimination simulation\<close>

text \<open>
  The second version of the class adds the solvability check. Its checks
  \<^verbatim>\<open>...InGrid\<close> take the grid to read as a parameter and the dimensions from the object;
  canConnectInGrid also tests the \<^verbatim>\<open>matched\<close> flags of the two cells. The corner checks
  return true or false.
\<close>

definition isValidCellInGrid :: "algo \<Rightarrow> 'a corner_scheme \<Rightarrow> cell list list \<Rightarrow> bool" where
  "isValidCellInGrid A c g =
     (if row c < 0 \<or> row c \<ge> gridRows A then False
      else if col c < 0 \<or> col c \<ge> gridCols A then False
      else True)"

definition isCellEmptyInGrid :: "algo \<Rightarrow> int \<Rightarrow> int \<Rightarrow> cell list list \<Rightarrow> bool" where
  "isCellEmptyInGrid A r c g =
     (if r < 0 \<or> r \<ge> gridRows A \<or> c < 0 \<or> c \<ge> gridCols A then False
      else (let cl = g ! nat r ! nat c in \<not> visible cl \<or> matched cl))"

definition isValidCornerInGrid :: "algo \<Rightarrow> 'a corner_scheme \<Rightarrow> cell list list \<Rightarrow> bool" where
  "isValidCornerInGrid A cn g = isCellEmptyInGrid A (row cn) (col cn) g"

definition checkHorizontalLineInGrid ::
    "algo \<Rightarrow> 'a corner_scheme \<Rightarrow> 'b corner_scheme \<Rightarrow> cell list list \<Rightarrow> bool" where
  "checkHorizontalLineInGrid A c1 c2 g =
     (let minCol = min (col c1) (col c2); maxCol = max (col c1) (col c2)
      in list_all (\<lambda>c. isCellEmptyInGrid A (row c1) c g) [minCol + 1 .. maxCol - 1])"

definition checkVerticalLineInGrid ::
    "algo \<Rightarrow> 'a corner_scheme \<Rightarrow> 'b corner_scheme \<Rightarrow> cell list list \<Rightarrow> bool" where
  "checkVerticalLineInGrid A c1 c2 g =
     (let minRow = min (row c1) (row c2); maxRow = max (row c1) (row c2)
      in list_all (\<lambda>r. isCellEmptyInGrid A r (col c1) g) [minRow + 1 .. maxRow - 1])"

definition checkStraightLineInGrid ::
    "algo \<Rightarrow> 'a corner_scheme \<Rightarrow> 'b corner_scheme \<Rightarrow> cell list list \<Rightarrow> bool" where
  "checkStraightLineInGrid A c1 c2 g =
     (if row c1 = row c2 then checkHorizontalLineInGrid A c1 c2 g
      else if col c1 = col c2 then checkVerticalLineInGrid A c1 c2 g
      else False)"

definition checkOneCornerInGrid ::
    "algo \<Rightarrow> 'a corner_scheme \<Rightarrow> 'b corner_scheme \<Rightarrow> cell list list \<Rightarrow> bool" where
  "checkOneCornerInGrid A c1 c2 g =
     (let corner1 = \<lparr>row = row c1, col = col c2\<rparr>;
          corner2 = \<lparr>row = row c2, col = col c1\<rparr>
      in if isValidCornerInGrid A corner1 g \<and> checkStraightLineInGrid A c1 corner1 g
            \<and> checkStraightLineInGrid A corner1 c2 g then True
         else if isValidCornerInGrid A corner2 g \<and> checkStraightLineInGrid A c1 corner2 g
            \<and> checkStraightLineInGrid A corner2 c2 g then True
         else False)"

fun scanRowsInGrid ::
    "algo \<Rightarrow> 'a corner_scheme \<Rightarrow> 'b corner_scheme \<Rightarrow> cell list list \<Rightarrow> int list \<Rightarrow> bool" where
  "scanRowsInGrid A c1 c2 g [] = False"
| "scanRowsInGrid A c1 c2 g (r # rs) =
     (if r = row c1 \<or> r = row c2 then scanRowsInGrid A c1 c2 g rs
      else (let corner1 = \<lparr>row = r, col = col c1\<rparr>;
                corner2 = \<lparr>row = r, col = col c2\<rparr>
            in if isValidCornerInGrid A corner1 g \<and> isValidCornerInGrid A corner2 g then
                 (if checkStraightLineInGrid A c1 corner1 g
                     \<and> checkHorizontalLineInGrid A corner1 corner2 g
                     \<and> checkStraightLineInGrid A corner2 c2 g
                  then True
                  else scanRowsInGrid A c1 c2 g rs)
               else scanRowsInGrid A c1 c2 g rs))"

fun scanColsInGrid ::
    "algo \<Rightarrow> 'a corner_scheme \<Rightarrow> 'b corner_scheme \<Rightarrow> cell list list \<Rightarrow> int list \<Rightarrow> bool" where
  "scanColsInGrid A c1 c2 g [] = False"
| "scanColsInGrid A c1 c2 g (c # cs) =
     (if c = col c1 \<or> c = col c2 then scanColsInGrid A c1 c2 g cs
      else (let corner1 = \<lparr>row = row c1, col = c\<rparr>;
                corner2 = \<lparr>row = row c2, col = c\<rparr>
            in if isValidCornerInGrid A corner1 g \<and> isValidCornerInGrid A corner2 g then
                 (if checkStraightLineInGrid A c1 corner1 g
                     \<and> checkVerticalLineInGrid A corner1 corner2 g
                     \<and> checkStraightLineInGrid A corner2 c2 g
                  then True
                  else scanColsInGrid A c1 c2 g cs)
               else scanColsInGrid A c1 c2 g cs))"

definition checkTwoCornersInGrid ::
    "algo \<Rightarrow> 'a corner_scheme \<Rightarrow> 'b corner_scheme \<Rightarrow> cell list list \<Rightarrow> bool" where
  "checkTwoCornersInGrid A c1 c2 g =
     (if scanRowsInGrid A c1 c2 g [0 .. gridRows A - 1] then True
      else scanColsInGrid A c1 c2 g [0 .. gridCols A - 1])"

definition canConnectInGrid :: "algo \<Rightarrow> cell \<Rightarrow> cell \<Rightarrow> cell list list \<Rightarrow> bool" where
  "canConnectInGrid A cell1 cell2 g =
     (if \<not> isValidCellInGrid A cell1 g \<or> \<not> isValidCellInGrid A cell2 g then False
      else if cell1 = cell2 then False
      else if pattern cell1 = None \<or> pattern cell2 = None then False
      else if pid (the (pattern cell1)) \<noteq> pid (the (pattern cell2)) then False
      else if matched cell1 \<or> matched cell2 then False
      else checkStraightLineInGrid A cell1 cell2 g
           \<or> checkOneCornerInGrid A cell1 cell2 g
           \<or> checkTwoCornersInGrid A cell1 cell2 g)"

section \<open>The solvability check (isBoardSolvable)\<close>

text \<open>
  getVisibleCells and validateGameState read the board of the object. The counts are kept
  in an object keyed by pattern id; \<open>countPatterns\<close> is that object after the counting
  loop, and validateGameState returns false when a count is odd.
\<close>

definition getVisibleCells :: "algo \<Rightarrow> cell list" where
  "getVisibleCells A =
     filter (\<lambda>cl. visible cl \<and> \<not> matched cl)
       (concat (map (\<lambda>r. map (\<lambda>c. grid A ! r ! c) [0 ..< nat (gridCols A)])
                    [0 ..< nat (gridRows A)]))"

definition countPatterns :: "cell list \<Rightarrow> (nat \<rightharpoonup> nat)" where
  "countPatterns cells =
     fold (\<lambda>cl m. case pattern cl of
                     None \<Rightarrow> m
                   | Some p \<Rightarrow> m(pid p \<mapsto> (case m (pid p) of None \<Rightarrow> 0 | Some n \<Rightarrow> n) + 1))
          cells Map.empty"

definition validateGameState :: "algo \<Rightarrow> bool" where
  "validateGameState A =
     (let visibleCells = getVisibleCells A;
          patternCounts = countPatterns visibleCells
      in list_all (\<lambda>cl. case pattern cl of
                           None \<Rightarrow> True
                         | Some p \<Rightarrow> (case patternCounts (pid p) of
                                         None \<Rightarrow> True
                                       | Some n \<Rightarrow> \<not> (n mod 2 \<noteq> 0)))
           visibleCells)"

text \<open>
  isBoardSolvable copies the board and then marks cells of the copy as matched. Whether
  the live board is touched depends on which objects the copy holds, so this part of the
  model has an explicit store: a cell object lives at an address, the store \<open>heap\<close> is the
  list of all cell objects (the object at address \<open>a\<close> is \<open>h ! a\<close>), a board is a grid of
  addresses, and \<^verbatim>\<open>{ ... }\<close> allocates the next free address. \<open>algoRef\<close> is the algorithm
  object with its board held by reference; \<open>deref\<close> reads a grid of addresses in a store,
  and \<open>snapshot\<close> is the object as the read-only checks see it.
\<close>

type_synonym addr = nat
type_synonym heap = "cell list"

record algoRef =
  gridRef :: "addr list list"
  gridRowsRef :: int
  gridColsRef :: int

definition deref :: "heap \<Rightarrow> addr list list \<Rightarrow> cell list list" where
  "deref h g = map (map (\<lambda>a. h ! a)) g"

definition snapshot :: "algoRef \<Rightarrow> heap \<Rightarrow> algo" where
  "snapshot R h = \<lparr>grid = deref h (gridRef R), gridRows = gridRowsRef R, gridCols = gridColsRef R\<rparr>"

text \<open>
  createGridCopy builds a new object for every position, in row-major order, with the
  fields of the original cell; the pattern is copied by value.
\<close>

definition createGridCopy :: "algoRef \<Rightarrow> heap \<Rightarrow> heap \<times> addr list list" where
  "createGridCopy R h =
     (let rows = nat (gridRowsRef R); cols = nat (gridColsRef R);
          newCells = concat (map (\<lambda>r. map (\<lambda>c.
              (let originalCell = h ! (gridRef R ! r ! c)
               in \<lparr>row = int r, col = int c, pattern = pattern originalCell,
                    visible = visible originalCell, matched = matched originalCell\<rparr>))
              [0 ..< cols]) [0 ..< rows]);
          gridCopy = map (\<lambda>r. map (\<lambda>c. length h + r * cols + c) [0 ..< cols]) [0 ..< rows]
      in (h @ newCells, gridCopy))"

definition getVisibleCellsFromGrid :: "algoRef \<Rightarrow> heap \<Rightarrow> addr list list \<Rightarrow> addr list" where
  "getVisibleCellsFromGrid R h g =
     filter (\<lambda>a. visible (h ! a) \<and> \<not> matched (h ! a))
       (concat (map (\<lambda>r. map (\<lambda>c. g ! r ! c) [0 ..< nat (gridColsRef R)])
                    [0 ..< nat (gridRowsRef R)]))"

text \<open>
  findAllConnectablePairsInGrid groups the visible cells by pattern id in an object and
  walks its keys with \<^verbatim>\<open>for ... in\<close>, which visits integer keys in ascending order; inside
  a group it tests the pairs (i, j) with i < j in order. \<open>pairsOf\<close> lists these pairs.
  The two cells of a pair are different objects of the grid read, which differ in row or
  col, so the identity test of canConnectInGrid is false for them in the source and in the
  model.
\<close>

fun pairsOf :: "'a list \<Rightarrow> ('a \<times> 'a) list" where
  "pairsOf [] = []"
| "pairsOf (x # xs) = map (\<lambda>y. (x, y)) xs @ pairsOf xs"

definition findAllConnectablePairsInGrid ::
    "algoRef \<Rightarrow> heap \<Rightarrow> addr list list \<Rightarrow> (addr \<times> addr) list" where
  "findAllConnectablePairsInGrid R h g =
     (let visibleCells = getVisibleCellsFromGrid R h g;
          withPattern = filter (\<lambda>a. pattern (h ! a) \<noteq> None) visibleCells;
          patternIds = sort (remdups (map (\<lambda>a. pid (the (pattern (h ! a)))) withPattern))
      in concat (map (\<lambda>patternId.
           (let cells = filter (\<lambda>a. pid (the (pattern (h ! a))) = patternId) withPattern
            in filter (\<lambda>(cell1, cell2).
                 canConnectInGrid (snapshot R h) (h ! cell1) (h ! cell2) (deref h g))
                 (pairsOf cells)))
           patternIds))"

text \<open>
  simulateElimination: the loop runs at most \<open>maxIterations\<close> times; \<open>simulateLoop\<close> is the
  loop with the number of iterations left. Marking a cell matched is a write to the store
  at the address of the cell.
\<close>

fun simulateLoop :: "algoRef \<Rightarrow> addr list list \<Rightarrow> nat \<Rightarrow> int \<Rightarrow> heap \<Rightarrow> bool \<times> heap" where
  "simulateLoop R g 0 eliminatedCount h = (False, h)"
| "simulateLoop R g (Suc n) eliminatedCount h =
     (let connectablePairs = findAllConnectablePairsInGrid R h g
      in if length connectablePairs = 0 then
           (length (getVisibleCellsFromGrid R h g) = 0, h)
         else
           (let pair = connectablePairs ! 0;
                h1 = h[fst pair := (h ! fst pair)\<lparr>matched := True\<rparr>];
                h2 = h1[snd pair := (h1 ! snd pair)\<lparr>matched := True\<rparr>];
                eliminated = eliminatedCount + 2
            in if eliminated \<ge> gridRowsRef R * gridColsRef R then (True, h2)
               else simulateLoop R g n eliminated h2))"

definition simulateElimination :: "algoRef \<Rightarrow> heap \<Rightarrow> addr list list \<Rightarrow> bool \<times> heap" where
  "simulateElimination R h g =
     (let totalCells = gridRowsRef R * gridColsRef R;
          maxIterations = totalCells * 2
      in simulateLoop R g (nat maxIterations) 0 h)"

definition isBoardSolvable :: "algoRef \<Rightarrow> heap \<Rightarrow> bool \<times> heap" where
  "isBoardSolvable R h =
     (if \<not> validateGameState (snapshot R h) then (False, h)
      else (let (h1, simulatedGrid) = createGridCopy R h
            in simulateElimination R h1 simulatedGrid))"

section \<open>Board generation (class LinkGame)\<close>

text \<open>
  generatePatterns: the nested loops over the colours and the shapes push a pattern and
  advance \<^verbatim>\<open>id\<close>, and the inner loop breaks once 30 patterns exist. \<open>generateInner\<close> is the
  inner loop for one colour, carrying the patterns so far and the next id. The name of a
  pattern is the shape, an underscore and the colour without its first character.
\<close>

definition colors :: "string list" where
  "colors = [''#FF6B6B'', ''#4ECDC4'', ''#45B7D1'', ''#96CEB4'', ''#FFEAA7'',
             ''#DDA0DD'', ''#98D8C8'', ''#F7DC6F'', ''#BB8FCE'', ''#85C1E9'',
             ''#F8C471'', ''#82E0AA'', ''#F1948A'', ''#85C1E9'', ''#D7BDE2'',
             ''#F9E79F'', ''#AED6F1'', ''#ABEBC6'', ''#FAD7A0'', ''#D5DBDB'']"

definition shapes :: "string list" where
  "shapes = [''circle'', ''square'', ''triangle'', ''diamond'', ''star'', ''heart'']"

fun generateInner :: "string \<Rightarrow> string list \<Rightarrow> pattern list \<times> nat \<Rightarrow> pattern list \<times> nat" where
  "generateInner c [] (patterns, nextId) = (patterns, nextId)"
| "generateInner c (s # ss) (patterns, nextId) =
     (if length patterns \<ge> 30 then (patterns, nextId)
      else generateInner c ss
             (patterns @ [\<lparr>pid = nextId, color = c, shape = s, pname = s @ ''_'' @ drop 1 c\<rparr>],
              nextId + 1))"

definition generatePatterns :: "pattern list" where
  "generatePatterns = fst (fold (\<lambda>c acc. generateInner c shapes acc) colors ([], 1))"

text \<open>
  The table \<^verbatim>\<open>levelConfigs\<close>, reduced to the number of patterns of a level; the board of
  the game has 8 rows and 10 columns.
\<close>

definition levelPatterns :: "nat \<Rightarrow> nat option" where
  "levelPatterns level =
     (if level = 1 then Some 10 else if level = 2 then Some 15 else if level = 3 then Some 20
      else if level = 4 then Some 25 else if level = 5 then Some 30 else None)"

text \<open>
  shuffleArray is the Fisher-Yates loop, with \<^verbatim>\<open>i\<close> running from \<^verbatim>\<open>length - 1\<close> down to 1.
  \<^verbatim>\<open>Math.floor(Math.random() * (i + 1))\<close> is some integer in \<open>0 .. i\<close>; the model takes the
  draws from an arbitrary sequence of naturals \<open>rnd\<close>, the draw number \<open>k\<close> reduced modulo
  \<open>i + 1\<close>, and counts the draws made. Every run of the source is the model on some
  sequence.
\<close>

fun shuffleLoop :: "(nat \<Rightarrow> nat) \<Rightarrow> nat \<Rightarrow> 'a list \<Rightarrow> nat \<Rightarrow> 'a list \<times> nat" where
  "shuffleLoop rnd 0 array k = (array, k)"
| "shuffleLoop rnd (Suc i) array k =
     (let j = rnd k mod (Suc i + 1)
      in shuffleLoop rnd i (array[Suc i := array ! j, j := array ! Suc i]) (k + 1))"

definition shuffleArray :: "(nat \<Rightarrow> nat) \<Rightarrow> 'a list \<Rightarrow> nat \<Rightarrow> 'a list \<times> nat" where
  "shuffleArray rnd array k = shuffleLoop rnd (length array - 1) array k"

text \<open>
  The fill loops of fillGridWithPatterns visit \<^verbatim>\<open>grid[row][col]\<close> for all rows and columns
  in row-major order and carry \<^verbatim>\<open>patternIndex\<close> along. \<open>fillRow\<close> is the inner loop over one
  row and \<open>fillRows\<close> the outer loop; on the gridRows x gridCols board that initializeGrid
  builds these are all the cells. A cell past the fill count keeps its pattern field.
\<close>

fun fillRow :: "pattern list \<Rightarrow> nat \<Rightarrow> cell list \<Rightarrow> nat \<Rightarrow> cell list \<times> nat" where
  "fillRow patternPairs totalCells [] patternIndex = ([], patternIndex)"
| "fillRow patternPairs totalCells (cl # cls) patternIndex =
     (if patternIndex < length patternPairs \<and> patternIndex < totalCells then
        (let (rest, idx) = fillRow patternPairs totalCells cls (patternIndex + 1)
         in (cl\<lparr>pattern := Some (patternPairs ! patternIndex), visible := True,
                matched := False\<rparr> # rest, idx))
      else
        (let (rest, idx) = fillRow patternPairs totalCells cls patternIndex
         in (cl\<lparr>visible := False, matched := True\<rparr> # rest, idx)))"

fun fillRows :: "pattern list \<Rightarrow> nat \<Rightarrow> cell list list \<Rightarrow> nat \<Rightarrow> cell list list \<times> nat" where
  "fillRows patternPairs totalCells [] patternIndex = ([], patternIndex)"
| "fillRows patternPairs totalCells (rw # rws) patternIndex =
     (let (rw', idx) = fillRow patternPairs totalCells rw patternIndex;
          (rws', idx') = fillRows patternPairs totalCells rws idx
      in (rw' # rws', idx'))"

text \<open>
  deepReshuffleGrid collects the patterns of the visible, unmatched cells (getVisibleCells
  of the game, in row-major order), shuffles them five times and hands them back to the
  same cells in order. \<open>reassignRow\<close> and \<open>reassignRows\<close> are the reassignment loop: the
  cells it visits are those that are visible and unmatched, and \<^verbatim>\<open>patternIndex\<close> is carried
  along.
\<close>

definition gameVisibleCells :: "cell list list \<Rightarrow> cell list" where
  "gameVisibleCells g = filter (\<lambda>cl. visible cl \<and> \<not> matched cl) (concat g)"

fun shuffleTimes :: "nat \<Rightarrow> (nat \<Rightarrow> nat) \<Rightarrow> 'a list \<Rightarrow> nat \<Rightarrow> 'a list \<times> nat" where
  "shuffleTimes 0 rnd array k = (array, k)"
| "shuffleTimes (Suc n) rnd array k =
     (let (array', k') = shuffleArray rnd array k in shuffleTimes n rnd array' k')"

fun reassignRow :: "pattern list \<Rightarrow> cell list \<Rightarrow> nat \<Rightarrow> cell list \<times> nat" where
  "reassignRow patterns [] patternIndex = ([], patternIndex)"
| "reassignRow patterns (cl # cls) patternIndex =
     (if visible cl \<and> \<not> matched cl then
        (if patternIndex < length patterns then
           (let (rest, idx) = reassignRow patterns cls (patternIndex + 1)
            in (cl\<lparr>pattern := Some (patterns ! patternIndex)\<rparr> # rest, idx))
         else
           (let (rest, idx) = reassignRow patterns cls patternIndex in (cl # rest, idx)))
      else
        (let (rest, idx) = reassignRow patterns cls patternIndex in (cl # rest, idx)))"

fun reassignRows :: "pattern list \<Rightarrow> cell list list \<Rightarrow> nat \<Rightarrow> cell list list \<times> nat" where
  "reassignRows patterns [] patternIndex = ([], patternIndex)"
| "reassignRows patterns (rw # rws) patternIndex =
     (let (rw', idx) = reassignRow patterns rw patternIndex;
          (rws', idx') = reassignRows patterns rws idx
      in (rw' # rws', idx'))"

definition deepReshuffleGrid :: "(nat \<Rightarrow> nat) \<Rightarrow> cell list list \<Rightarrow> nat \<Rightarrow> cell list list \<times> nat" where
  "deepReshuffleGrid rnd g k =
     (let visibleCells = gameVisibleCells g;
          patterns = map (\<lambda>cl. the (pattern cl)) (filter (\<lambda>cl. pattern cl \<noteq> None) visibleCells);
          (shuffled, k') = shuffleTimes 5 rnd patterns k
      in (fst (reassignRows shuffled g 0), k'))"

text \<open>
  The state of the retry loop of fillGridWithPatterns: the board, \<^verbatim>\<open>retryCount\<close>,
  \<^verbatim>\<open>isSolvable\<close> and the number of random draws made so far. \<open>iterations\<close> and
  \<open>deepReshuffles\<close> are not variables of the source: they count the loop iterations run
  and the calls of deepReshuffleGrid. Console output is left out, and with it the last
  validation after the loop, whose answer is only logged.
\<close>

definition maxRetries :: nat where
  "maxRetries = 100"

record fillState =
  board :: "cell list list"
  retryCount :: nat
  isSolvable :: bool
  draws :: nat
  iterations :: nat
  deepReshuffles :: nat

text \<open>
  Modelled from the spec: \<^verbatim>\<open>strictBoardValidation\<close>, a method of the algorithm object that
  fillGridWithPatterns calls, is not in the sources. The specification describes the
  validation as the pairing-parity check followed by the elimination simulation on a deep
  copy of the board, so it reads the board and answers true or false; it is the parameter
  \<open>strictBoardValidation\<close> of the model, any function from the algorithm object to a truth
  value.

  \<open>fillStep\<close> is one iteration of the loop. The parameters \<open>rows\<close>, \<open>cols\<close> are
  \<^verbatim>\<open>this.gridRows\<close>, \<^verbatim>\<open>this.gridCols\<close>, and \<open>availablePatterns\<close> is
  \<^verbatim>\<open>this.patterns.slice(0, patternCount)\<close>. \<^verbatim>\<open>new LinkGameAlgorithm(this.grid)\<close> throws on a
  board without rows: that is the result \<open>None\<close>.
\<close>

definition fillStep :: "(algo \<Rightarrow> bool) \<Rightarrow> (nat \<Rightarrow> nat) \<Rightarrow> nat \<Rightarrow> nat \<Rightarrow> pattern list
    \<Rightarrow> fillState \<Rightarrow> fillState option" where
  "fillStep strictBoardValidation rnd rows cols availablePatterns st =
     (let patternPairs = concat (map (\<lambda>p. [p, p]) availablePatterns);
          st0 = st\<lparr>iterations := iterations st + 1\<rparr>
      in if length patternPairs mod 2 \<noteq> 0 then
           Some (st0\<lparr>retryCount := retryCount st + 1\<rparr>)
         else
           (let (shuffled, k1) = shuffleArray rnd patternPairs (draws st);
                g1 = fst (fillRows shuffled (rows * cols) (board st) 0);
                st1 = st0\<lparr>board := g1, draws := k1\<rparr>
            in case LinkGameAlgorithm g1 of
                 None \<Rightarrow> None
               | Some algorithm \<Rightarrow>
                   if \<not> validateGameState algorithm then
                     Some (st1\<lparr>retryCount := retryCount st + 1\<rparr>)
                   else if strictBoardValidation algorithm then
                     Some (st1\<lparr>isSolvable := True\<rparr>)
                   else if retryCount st + 1 \<ge> maxRetries then
                     (let (g2, k2) = deepReshuffleGrid rnd g1 k1
                      in case LinkGameAlgorithm g2 of
                           None \<Rightarrow> None
                         | Some algorithm2 \<Rightarrow>
                             Some (st1\<lparr>board := g2, draws := k2,
                                      retryCount := retryCount st + 1,
                                      isSolvable := strictBoardValidation algorithm2,
                                      deepReshuffles := deepReshuffles st + 1\<rparr>))
                   else
                     Some (st1\<lparr>retryCount := retryCount st + 1, isSolvable := False\<rparr>)))"

text \<open>
  The loop ends because between two iterations either \<^verbatim>\<open>isSolvable\<close> has become true or
  \<^verbatim>\<open>retryCount\<close> has grown by one.
\<close>

function fillLoop :: "(algo \<Rightarrow> bool) \<Rightarrow> (nat \<Rightarrow> nat) \<Rightarrow> nat \<Rightarrow> nat \<Rightarrow> pattern list
    \<Rightarrow> fillState \<Rightarrow> fillState option" where
  "fillLoop sv rnd rows cols avail st =
     (if \<not> isSolvable st \<and> retryCount st < maxRetries then
        (case fillStep sv rnd rows cols avail st of
           None \<Rightarrow> None
         | Some st' \<Rightarrow> fillLoop sv rnd rows cols avail st')
      else Some st)"
  by pat_completeness auto
termination
proof (relation "measure (\<lambda>(sv, rnd, rows, cols, avail, st).
          if isSolvable st then 0 else Suc (maxRetries - retryCount st))")
  show "wf (measure (\<lambda>(sv, rnd, rows, cols, avail, st).
          if isSolvable st then 0 else Suc (maxRetries - retryCount st)))" by simp
next
  fix sv :: "algo \<Rightarrow> bool" and rnd :: "nat \<Rightarrow> nat" and rows cols :: nat
    and avail :: "pattern list" and st st' :: fillState
  assume c: "\<not> isSolvable st \<and> retryCount st < maxRetries"
    and s: "fillStep sv rnd rows cols avail st = Some st'"
  from s c have "isSolvable st' \<or> retryCount st' = retryCount st + 1"
    unfolding fillStep_def Let_def by (auto split: if_splits option.splits prod.splits)
  with c show "((sv, rnd, rows, cols, avail, st'), (sv, rnd, rows, cols, avail, st))
      \<in> measure (\<lambda>(sv, rnd, rows, cols, avail, st).
          if isSolvable st then 0 else Suc (maxRetries - retryCount st))"
    by auto
qed

definition fillGridWithPatterns :: "(algo \<Rightarrow> bool) \<Rightarrow> (nat \<Rightarrow> nat) \<Rightarrow> nat \<Rightarrow> nat
    \<Rightarrow> pattern list \<Rightarrow> nat \<Rightarrow> cell list list \<Rightarrow> fillState option" where
  "fillGridWithPatterns strictBoardValidation rnd rows cols patterns patternCount g =
     (let availablePatterns = take patternCount patterns
      in fillLoop strictBoardValidation rnd rows cols availablePatterns
           \<lparr>board = g, retryCount = 0, isSolvable = False, draws = 0, iterations = 0,
            deepReshuffles = 0\<rparr>)"

text \<open>
  initializeGrid: a board of gridRows x gridCols cells without pattern, which
  fillGridWithPatterns then fills.
\<close>

definition initializeGrid :: "nat \<Rightarrow> nat \<Rightarrow> cell list list" where
  "initializeGrid rows cols =
     map (\<lambda>r. map (\<lambda>c. \<lparr>row = int r, col = int c, pattern = None, visible = False,
                          matched = False\<rparr>) [0 ..< cols]) [0 ..< rows]"

section \<open>Predicates used in the statements\<close>

text \<open>
  \<open>cellEmpty\<close> is the emptiness test isCellEmpty applies to a cell of the board.
  \<open>rectangular\<close> says that the board of an algorithm object has gridRows rows of gridCols
  cells each, as initializeGrid builds it. \<open>placeBlocker\<close> is the board after the cell at
  one position has been made visible and unmatched.
\<close>

definition cellEmpty :: "cell \<Rightarrow> bool" where
  "cellEmpty cl = (\<not> visible cl \<or> matched cl)"

definition rectangular :: "algo \<Rightarrow> bool" where
  "rectangular A =
     (gridRows A = int (length (grid A))
      \<and> list_all (\<lambda>rw. int (length rw) = gridCols A) (grid A))"

definition placeBlocker :: "algo \<Rightarrow> int \<Rightarrow> int \<Rightarrow> algo" where
  "placeBlocker A r c =
     A\<lparr>grid := (grid A)[nat r := (grid A ! nat r)[nat c :=
          (grid A ! nat r ! nat c)\<lparr>visible := True, matched := False\<rparr>]]\<rparr>"

text \<open>
  \<open>countId g i\<close> is the number of visible, unmatched cells of the board that hold the
  pattern id \<open>i\<close>.
\<close>

definition countId :: "cell list list \<Rightarrow> nat \<Rightarrow> nat" where
  "countId g i =
     length (filter (\<lambda>cl. case pattern cl of None \<Rightarrow> False | Some p \<Rightarrow> pid p = i)
               (gameVisibleCells g))"

text \<open>
  Two predicates for the proofs about the retry loop. \<open>filledWith avail g\<close>: the visible,
  unmatched cells of \<open>g\<close> hold, in some order, exactly the pattern pairs built from
  \<open>avail\<close>. \<open>fillInv\<close> is the invariant of the loop, for the board \<open>g0\<close> it started from.
\<close>

definition filledWith :: "pattern list \<Rightarrow> cell list list \<Rightarrow> bool" where
  "filledWith avail g =
     (\<exists>ps. map pattern (gameVisibleCells g) = map Some ps
        \<and> mset ps = mset (concat (map (\<lambda>p. [p, p]) avail)))"

definition fillInv :: "(algo \<Rightarrow> bool) \<Rightarrow> pattern list \<Rightarrow> cell list list \<Rightarrow> fillState \<Rightarrow> bool" where
  "fillInv sv avail g0 s =
     (map length (board s) = map length g0
      \<and> retryCount s \<le> maxRetries \<and> iterations s \<le> maxRetries
      \<and> (\<not> isSolvable s \<longrightarrow> iterations s = retryCount s)
      \<and> (isSolvable s \<longrightarrow> 0 < iterations s)
      \<and> (deepReshuffles s = 0 \<or> (deepReshuffles s = 1 \<and> retryCount s = maxRetries))
      \<and> (0 < iterations s \<longrightarrow> filledWith avail (board s))
      \<and> (isSolvable s \<longrightarrow>
            (case LinkGameAlgorithm (board s) of None \<Rightarrow> False | Some A \<Rightarrow> sv A)))"

section \<open>Example boards\<close>

text \<open>
  Small boards on which the theorems below are instantiated. \<open>filledCell\<close> is a cell as
  fillGridWithPatterns leaves a filled slot, \<open>emptyCell\<close> one as it leaves a slot past
  the fill count. \<open>board2x2\<close> is the board of the end-to-end scenario of the specification.
\<close>

definition pat7 :: pattern where
  "pat7 = \<lparr>pid = 7, color = ''#FF6B6B'', shape = ''circle'', pname = ''circle_FF6B6B''\<rparr>"

definition pat3 :: pattern where
  "pat3 = \<lparr>pid = 3, color = ''#FF6B6B'', shape = ''triangle'', pname = ''triangle_FF6B6B''\<rparr>"

definition filledCell :: "int \<Rightarrow> int \<Rightarrow> pattern \<Rightarrow> cell" where
  "filledCell r c p = \<lparr>row = r, col = c, pattern = Some p, visible = True, matched = False\<rparr>"

definition emptyCell :: "int \<Rightarrow> int \<Rightarrow> cell" where
  "emptyCell r c = \<lparr>row = r, col = c, pattern = None, visible = False, matched = True\<rparr>"

definition board2x2 :: "cell list list" where
  "board2x2 = [[filledCell 0 0 pat7, emptyCell 0 1],
               [emptyCell 1 0, filledCell 1 1 pat7]]"

definition algo2x2 :: algo where
  "algo2x2 = \<lparr>grid = board2x2, gridRows = 2, gridCols = 2\<rparr>"

definition boardRowGap :: "cell list list" where
  "boardRowGap = [[emptyCell 0 0, emptyCell 0 1, emptyCell 0 2],
                  [filledCell 1 0 pat7, filledCell 1 1 pat3, filledCell 1 2 pat7],
                  [emptyCell 2 0, emptyCell 2 1, emptyCell 2 2]]"

definition algoRowGap :: algo where
  "algoRowGap = \<lparr>grid = boardRowGap, gridRows = 3, gridCols = 3\<rparr>"

definition boardColGap :: "cell list list" where
  "boardColGap = [[emptyCell 0 0, filledCell 0 1 pat7, emptyCell 0 2],
                  [emptyCell 1 0, filledCell 1 1 pat3, emptyCell 1 2],
                  [emptyCell 2 0, filledCell 2 1 pat7, emptyCell 2 2]]"

definition algoColGap :: algo where
  "algoColGap = \<lparr>grid = boardColGap, gridRows = 3, gridCols = 3\<rparr>"

definition board1x2 :: "cell list list" where
  "board1x2 = [[filledCell 0 0 pat7, filledCell 0 1 pat3]]"

definition algo1x2 :: algo where
  "algo1x2 = \<lparr>grid = board1x2, gridRows = 1, gridCols = 2\<rparr>"

definition board2x2b :: "cell list list" where
  "board2x2b = [[filledCell 0 0 pat7, filledCell 0 1 pat3],
               [emptyCell 1 0, filledCell 1 1 pat7]]"

definition algo2x2b :: algo where
  "algo2x2b = \<lparr>grid = board2x2b, gridRows = 2, gridCols = 2\<rparr>"

text \<open>
  A board whose first cell has been matched by the player: the cell keeps its pattern.
\<close>

definition board1x2m :: "cell list list" where
  "board1x2m = [[\<lparr>row = 0, col = 0, pattern = Some pat7, visible = True, matched = True\<rparr>,
                 filledCell 0 1 pat7]]"

definition algo1x2m :: algo where
  "algo1x2m = \<lparr>grid = board1x2m, gridRows = 1, gridCols = 2\<rparr>"

text \<open>\<open>boardRowGap\<close> after its middle cell has been matched.\<close>

definition boardRowOpen :: "cell list list" where
  "boardRowOpen = [[emptyCell 0 0, emptyCell 0 1, emptyCell 0 2],
                   [filledCell 1 0 pat7,
                    \<lparr>row = 1, col = 1, pattern = Some pat3, visible = True, matched = True\<rparr>,
                    filledCell 1 2 pat7],
                   [emptyCell 2 0, emptyCell 2 1, emptyCell 2 2]]"

definition algoRowOpen :: algo where
  "algoRowOpen = \<lparr>grid = boardRowOpen, gridRows = 3, gridCols = 3\<rparr>"

text \<open>
  The board \<open>board2x2\<close> as four objects at the addresses 0 to 3, and the algorithm object
  that refers to it.
\<close>

definition heap2x2 :: heap where
  "heap2x2 = concat board2x2"

definition algoRef2x2 :: algoRef where
  "algoRef2x2 = \<lparr>gridRef = [[0, 1], [2, 3]], gridRowsRef = 2, gridColsRef = 2\<rparr>"

section \<open>Properties of the connection engine\<close>

subsection \<open>Symmetry of the checks and the order of the scans\<close>

lemma checkHorizontalLine_sym:
  "row c1 = row c2 \<Longrightarrow> checkHorizontalLine A c1 c2 = checkHorizontalLine A c2 c1"
  by (simp add: checkHorizontalLine_def min.commute max.commute)

lemma checkVerticalLine_sym:
  "col c1 = col c2 \<Longrightarrow> checkVerticalLine A c1 c2 = checkVerticalLine A c2 c1"
  by (simp add: checkVerticalLine_def min.commute max.commute)

lemma checkStraightLine_sym: "checkStraightLine A c1 c2 = checkStraightLine A c2 c1"
  unfolding checkStraightLine_def
  using checkHorizontalLine_sym[of c1 c2 A] checkVerticalLine_sym[of c1 c2 A] by auto

lemma checkOneCorner_eq:
  "checkOneCorner A c1 c2 =
     (if cornerOK A c1 c2 \<lparr>row = row c1, col = col c2\<rparr> then Some \<lparr>row = row c1, col = col c2\<rparr>
      else if cornerOK A c1 c2 \<lparr>row = row c2, col = col c1\<rparr> then Some \<lparr>row = row c2, col = col c1\<rparr>
      else None)"
  by (simp add: checkOneCorner_def cornerOK_def Let_def)

lemma cornerOK_sym: "cornerOK A c1 c2 cn = cornerOK A c2 c1 cn"
  unfolding cornerOK_def
  using checkStraightLine_sym[of A c1 cn] checkStraightLine_sym[of A c2 cn] by auto

lemma checkOneCorner_sym:
  "(checkOneCorner A c1 c2 \<noteq> None) = (checkOneCorner A c2 c1 \<noteq> None)"
  unfolding checkOneCorner_eq
  using cornerOK_sym[of A c1 c2] by auto

lemma scanRows_None_iff:
  "(scanRows A c1 c2 rs = None) = (\<forall>r\<in>set rs. \<not> rowOK A c1 c2 r)"
  by (induction rs) (auto simp: rowOK_def Let_def)

lemma scanCols_None_iff:
  "(scanCols A c1 c2 cs = None) = (\<forall>c\<in>set cs. \<not> colOK A c1 c2 c)"
  by (induction cs) (auto simp: colOK_def Let_def)

lemma scanRows_first:
  "\<forall>x\<in>set xs. \<not> rowOK A c1 c2 x \<Longrightarrow> rowOK A c1 c2 r \<Longrightarrow>
   scanRows A c1 c2 (xs @ r # ys) = Some (\<lparr>row = r, col = col c1\<rparr>, \<lparr>row = r, col = col c2\<rparr>)"
  by (induction xs) (auto simp: rowOK_def Let_def)

lemma scanCols_first:
  "\<forall>x\<in>set xs. \<not> colOK A c1 c2 x \<Longrightarrow> colOK A c1 c2 c \<Longrightarrow>
   scanCols A c1 c2 (xs @ c # ys) = Some (\<lparr>row = row c1, col = c\<rparr>, \<lparr>row = row c2, col = c\<rparr>)"
  by (induction xs) (auto simp: colOK_def Let_def)

lemma scanRows_Some:
  "scanRows A c1 c2 rs = Some (k1, k2) \<Longrightarrow>
   \<exists>r\<in>set rs. rowOK A c1 c2 r \<and> k1 = \<lparr>row = r, col = col c1\<rparr> \<and> k2 = \<lparr>row = r, col = col c2\<rparr>"
  by (induction rs) (auto simp: rowOK_def Let_def split: if_splits)

lemma scanCols_Some:
  "scanCols A c1 c2 cs = Some (k1, k2) \<Longrightarrow>
   \<exists>c\<in>set cs. colOK A c1 c2 c \<and> k1 = \<lparr>row = row c1, col = c\<rparr> \<and> k2 = \<lparr>row = row c2, col = c\<rparr>"
  by (induction cs) (auto simp: colOK_def Let_def split: if_splits)

lemma rowOK_sym: "rowOK A c1 c2 r = rowOK A c2 c1 r"
  unfolding rowOK_def
  using checkStraightLine_sym[of A c1 "\<lparr>row = r, col = col c1\<rparr>"]
        checkStraightLine_sym[of A c2 "\<lparr>row = r, col = col c2\<rparr>"]
        checkHorizontalLine_sym[of "\<lparr>row = r, col = col c1\<rparr>" "\<lparr>row = r, col = col c2\<rparr>" A]
  by auto

lemma colOK_sym: "colOK A c1 c2 c = colOK A c2 c1 c"
  unfolding colOK_def
  using checkStraightLine_sym[of A c1 "\<lparr>row = row c1, col = c\<rparr>"]
        checkStraightLine_sym[of A c2 "\<lparr>row = row c2, col = c\<rparr>"]
        checkVerticalLine_sym[of "\<lparr>row = row c1, col = c\<rparr>" "\<lparr>row = row c2, col = c\<rparr>" A]
  by auto

lemma checkTwoCorners_None_iff:
  "(checkTwoCorners A c1 c2 = None) =
     ((\<forall>r\<in>set [0 .. gridRows A - 1]. \<not> rowOK A c1 c2 r)
      \<and> (\<forall>c\<in>set [0 .. gridCols A - 1]. \<not> colOK A c1 c2 c))"
  by (auto simp: checkTwoCorners_def scanRows_None_iff scanCols_None_iff
        simp del: set_upto split: option.splits)
     (metis option.distinct(1) scanRows_None_iff)+

lemma checkTwoCorners_sym:
  "(checkTwoCorners A c1 c2 \<noteq> None) = (checkTwoCorners A c2 c1 \<noteq> None)"
  unfolding checkTwoCorners_None_iff using rowOK_sym[of A c1 c2] colOK_sym[of A c1 c2] by simp

lemma canConnect_sym: "canConnect A a b = canConnect A b a"
  unfolding canConnect_def
  using checkStraightLine_sym[of A a b] checkOneCorner_sym[of A a b] checkTwoCorners_sym[of A a b]
  by auto

subsection \<open>The path returned by getConnectionPath\<close>

lemma getConnectionPath_None_iff:
  "(getConnectionPath A a b = None) =
     (\<not> checkStraightLine A a b \<and> checkOneCorner A a b = None \<and> checkTwoCorners A a b = None)"
  by (auto simp: getConnectionPath_def split: option.splits)

lemma canConnect_imp_path: "canConnect A a b \<Longrightarrow> getConnectionPath A a b \<noteq> None"
  by (auto simp: canConnect_def getConnectionPath_None_iff split: if_splits)

lemma path_imp_canConnect:
  "isValidCell A a \<Longrightarrow> isValidCell A b \<Longrightarrow> a \<noteq> b \<Longrightarrow> pattern a = Some p \<Longrightarrow> pattern b = Some q
   \<Longrightarrow> pid p = pid q \<Longrightarrow> getConnectionPath A a b \<noteq> None \<Longrightarrow> canConnect A a b"
  by (auto simp: canConnect_def getConnectionPath_None_iff)

lemma path_shape:
  "getConnectionPath A a b = Some path \<Longrightarrow>
   2 \<le> length path \<and> length path \<le> 4 \<and> hd path = \<lparr>px = col a, py = row a\<rparr>
   \<and> last path = \<lparr>px = col b, py = row b\<rparr>"
  by (auto simp: getConnectionPath_def split: option.splits if_splits)

lemma isCellEmpty_inside:
  "isCellEmpty A r c \<Longrightarrow> 0 \<le> r \<and> r < gridRows A \<and> 0 \<le> c \<and> c < gridCols A"
  by (auto simp: isCellEmpty_def split: if_splits)

lemma checkOneCorner_valid: "checkOneCorner A a b = Some cn \<Longrightarrow> isValidCorner A cn"
  by (auto simp: checkOneCorner_eq cornerOK_def split: if_splits)

lemma checkTwoCorners_valid:
  "checkTwoCorners A a b = Some (k1, k2) \<Longrightarrow> isValidCorner A k1 \<and> isValidCorner A k2"
  by (auto simp: checkTwoCorners_def rowOK_def colOK_def split: option.splits
        dest!: scanRows_Some scanCols_Some)

lemma path_points_inside:
  assumes "isValidCell A a" and "isValidCell A b" and "getConnectionPath A a b = Some path"
  shows "list_all (\<lambda>p. 0 \<le> px p \<and> px p < gridCols A \<and> 0 \<le> py p \<and> py p < gridRows A) path"
proof -
  have ends: "0 \<le> col a \<and> col a < gridCols A \<and> 0 \<le> row a \<and> row a < gridRows A"
       "0 \<le> col b \<and> col b < gridCols A \<and> 0 \<le> row b \<and> row b < gridRows A"
    using assms(1,2) by (auto simp: isValidCell_def split: if_splits)
  have one: "\<And>cn. checkOneCorner A a b = Some cn \<Longrightarrow>
      0 \<le> col cn \<and> col cn < gridCols A \<and> 0 \<le> row cn \<and> row cn < gridRows A"
    using checkOneCorner_valid isCellEmpty_inside unfolding isValidCorner_def by blast
  have two: "\<And>k1 k2. checkTwoCorners A a b = Some (k1, k2) \<Longrightarrow>
      (0 \<le> col k1 \<and> col k1 < gridCols A \<and> 0 \<le> row k1 \<and> row k1 < gridRows A)
      \<and> (0 \<le> col k2 \<and> col k2 < gridCols A \<and> 0 \<le> row k2 \<and> row k2 < gridRows A)"
    using checkTwoCorners_valid isCellEmpty_inside unfolding isValidCorner_def by blast
  show ?thesis
    using assms(3) ends one two
    by (auto simp: getConnectionPath_def split: option.splits if_splits)
qed

subsection \<open>Claims on canConnect and getConnectionPath\<close>

text \<open>
  C1, as amended. getConnectionPath runs the three path checks only; it does not repeat the
  tests of canConnect on the two cells (bounds, identity, pattern), because its caller
  tryConnectCells asks canConnect first. So: whenever canConnect is true the path is not
  null; for two distinct in-bounds cells with equal non-null pattern ids the path is not
  null exactly when canConnect is true; and every path returned has 2 to 4 points, the first
  being (col, row) of the first cell and the last (col, row) of the second.
\<close>
theorem path_connect_consistency:
  "(canConnect A a b \<longrightarrow> getConnectionPath A a b \<noteq> None)
   \<and> (isValidCell A a \<and> isValidCell A b \<and> a \<noteq> b \<and> pattern a \<noteq> None \<and> pattern b \<noteq> None
        \<and> pid (the (pattern a)) = pid (the (pattern b))
      \<longrightarrow> (getConnectionPath A a b \<noteq> None) = canConnect A a b)
   \<and> (case getConnectionPath A a b of
         None \<Rightarrow> True
       | Some path \<Rightarrow> 2 \<le> length path \<and> length path \<le> 4
            \<and> hd path = \<lparr>px = col a, py = row a\<rparr> \<and> last path = \<lparr>px = col b, py = row b\<rparr>)"
proof (intro conjI impI)
  assume "canConnect A a b"
  then show "getConnectionPath A a b \<noteq> None" by (rule canConnect_imp_path)
next
  assume h: "isValidCell A a \<and> isValidCell A b \<and> a \<noteq> b \<and> pattern a \<noteq> None \<and> pattern b \<noteq> None
        \<and> pid (the (pattern a)) = pid (the (pattern b))"
  then obtain p q where "pattern a = Some p" "pattern b = Some q" "pid p = pid q" by auto
  with h show "(getConnectionPath A a b \<noteq> None) = canConnect A a b"
    using path_imp_canConnect[of A a b p q] canConnect_imp_path[of A a b] by blast
next
  show "case getConnectionPath A a b of
         None \<Rightarrow> True
       | Some path \<Rightarrow> 2 \<le> length path \<and> length path \<le> 4
            \<and> hd path = \<lparr>px = col a, py = row a\<rparr> \<and> last path = \<lparr>px = col b, py = row b\<rparr>"
    using path_shape[of A a b] by (simp split: option.split)
qed

text \<open>The theorem on the 2 x 2 board of the end-to-end scenario: a one-corner path.\<close>

theorem path_connect_consistency_witness:
  "LinkGameAlgorithm board2x2 = Some algo2x2
   \<and> canConnect algo2x2 (board2x2 ! 0 ! 0) (board2x2 ! 1 ! 1)
   \<and> isValidCell algo2x2 (board2x2 ! 0 ! 0) \<and> isValidCell algo2x2 (board2x2 ! 1 ! 1)
   \<and> board2x2 ! 0 ! 0 \<noteq> board2x2 ! 1 ! 1
   \<and> pattern (board2x2 ! 0 ! 0) \<noteq> None \<and> pattern (board2x2 ! 1 ! 1) \<noteq> None
   \<and> pid (the (pattern (board2x2 ! 0 ! 0))) = pid (the (pattern (board2x2 ! 1 ! 1)))
   \<and> getConnectionPath algo2x2 (board2x2 ! 0 ! 0) (board2x2 ! 1 ! 1)
       = Some [\<lparr>px = 0, py = 0\<rparr>, \<lparr>px = 1, py = 0\<rparr>, \<lparr>px = 1, py = 1\<rparr>]
   \<and> getConnectionPath algo2x2 (board2x2 ! 0 ! 0) (board2x2 ! 1 ! 1) \<noteq> None"
proof -
  have c: "canConnect algo2x2 (board2x2 ! 0 ! 0) (board2x2 ! 1 ! 1)" by code_simp
  have rest: "LinkGameAlgorithm board2x2 = Some algo2x2
   \<and> isValidCell algo2x2 (board2x2 ! 0 ! 0) \<and> isValidCell algo2x2 (board2x2 ! 1 ! 1)
   \<and> board2x2 ! 0 ! 0 \<noteq> board2x2 ! 1 ! 1
   \<and> pattern (board2x2 ! 0 ! 0) \<noteq> None \<and> pattern (board2x2 ! 1 ! 1) \<noteq> None
   \<and> pid (the (pattern (board2x2 ! 0 ! 0))) = pid (the (pattern (board2x2 ! 1 ! 1)))
   \<and> getConnectionPath algo2x2 (board2x2 ! 0 ! 0) (board2x2 ! 1 ! 1)
       = Some [\<lparr>px = 0, py = 0\<rparr>, \<lparr>px = 1, py = 0\<rparr>, \<lparr>px = 1, py = 1\<rparr>]" by code_simp
  from c path_connect_consistency[of algo2x2 "board2x2 ! 0 ! 0" "board2x2 ! 1 ! 1"]
  have "getConnectionPath algo2x2 (board2x2 ! 0 ! 0) (board2x2 ! 1 ! 1) \<noteq> None" by blast
  with c rest show ?thesis by blast
qed

text \<open>
  C1 as stated fails: the two cells of the 1 x 2 board \<open>board1x2\<close> hold different patterns,
  so canConnect is false, yet getConnectionPath returns the straight path between them.
\<close>

theorem path_connect_consistency_counterexample:
  "LinkGameAlgorithm board1x2 = Some algo1x2
   \<and> getConnectionPath algo1x2 (grid algo1x2 ! 0 ! 0) (grid algo1x2 ! 0 ! 1)
       = Some [\<lparr>px = 0, py = 0\<rparr>, \<lparr>px = 1, py = 0\<rparr>]
   \<and> \<not> canConnect algo1x2 (grid algo1x2 ! 0 ! 0) (grid algo1x2 ! 0 ! 1)"
  by code_simp

text \<open>
  C3. canConnect is symmetric: for cells a and b that are visible, not matched and hold
  equal non-null pattern ids, canConnect(a, b) and canConnect(b, a) agree, and so does each
  of the three cases: the straight line, the one-corner check and the two-corner check
  succeed for (a, b) exactly when they succeed for (b, a).
\<close>
theorem canConnect_symmetric:
  assumes "visible a" and "\<not> matched a" and "visible b" and "\<not> matched b"
    and "pattern a \<noteq> None" and "pattern b \<noteq> None"
    and "pid (the (pattern a)) = pid (the (pattern b))"
  shows "canConnect A a b = canConnect A b a
     \<and> checkStraightLine A a b = checkStraightLine A b a
     \<and> (checkOneCorner A a b \<noteq> None) = (checkOneCorner A b a \<noteq> None)
     \<and> (checkTwoCorners A a b \<noteq> None) = (checkTwoCorners A b a \<noteq> None)"
  using canConnect_sym[of A a b] checkStraightLine_sym[of A a b]
    checkOneCorner_sym[of A a b] checkTwoCorners_sym[of A a b] by blast

text \<open>The theorem on a board where the two cells connect by a two-corner path.\<close>

theorem canConnect_symmetric_witness:
  "visible (boardRowGap ! 1 ! 0) \<and> \<not> matched (boardRowGap ! 1 ! 0)
   \<and> visible (boardRowGap ! 1 ! 2) \<and> \<not> matched (boardRowGap ! 1 ! 2)
   \<and> pattern (boardRowGap ! 1 ! 0) \<noteq> None \<and> pattern (boardRowGap ! 1 ! 2) \<noteq> None
   \<and> pid (the (pattern (boardRowGap ! 1 ! 0))) = pid (the (pattern (boardRowGap ! 1 ! 2)))
   \<and> canConnect algoRowGap (boardRowGap ! 1 ! 0) (boardRowGap ! 1 ! 2)
   \<and> canConnect algoRowGap (boardRowGap ! 1 ! 2) (boardRowGap ! 1 ! 0)"
proof -
  have h: "visible (boardRowGap ! 1 ! 0)" "\<not> matched (boardRowGap ! 1 ! 0)"
    "visible (boardRowGap ! 1 ! 2)" "\<not> matched (boardRowGap ! 1 ! 2)"
    "pattern (boardRowGap ! 1 ! 0) \<noteq> None" "pattern (boardRowGap ! 1 ! 2) \<noteq> None"
    "pid (the (pattern (boardRowGap ! 1 ! 0))) = pid (the (pattern (boardRowGap ! 1 ! 2)))"
    by code_simp+
  have c: "canConnect algoRowGap (boardRowGap ! 1 ! 0) (boardRowGap ! 1 ! 2)" by code_simp
  from canConnect_symmetric[OF h, of algoRowGap] c
  have "canConnect algoRowGap (boardRowGap ! 1 ! 2) (boardRowGap ! 1 ! 0)" by blast
  with h c show ?thesis by blast
qed

text \<open>
  C10. Paths stay on the board: for two in-bounds cells every point of the path returned by
  getConnectionPath has its column in 0 .. gridCols - 1 and its row in 0 .. gridRows - 1;
  isCellEmpty is false at every position with a row or column out of range; and the corners
  found by checkTwoCorners lie within the bounds.
\<close>
theorem path_never_leaves_board:
  assumes "isValidCell A a" and "isValidCell A b"
  shows "(case getConnectionPath A a b of
            None \<Rightarrow> True
          | Some path \<Rightarrow>
              list_all (\<lambda>p. 0 \<le> px p \<and> px p < gridCols A \<and> 0 \<le> py p \<and> py p < gridRows A) path)
     \<and> (r < 0 \<or> r \<ge> gridRows A \<or> c < 0 \<or> c \<ge> gridCols A \<longrightarrow> \<not> isCellEmpty A r c)
     \<and> (case checkTwoCorners A a b of
            None \<Rightarrow> True
          | Some (k1, k2) \<Rightarrow>
              0 \<le> row k1 \<and> row k1 < gridRows A \<and> 0 \<le> col k1 \<and> col k1 < gridCols A
              \<and> 0 \<le> row k2 \<and> row k2 < gridRows A \<and> 0 \<le> col k2 \<and> col k2 < gridCols A)"
proof (intro conjI)
  show "case getConnectionPath A a b of
            None \<Rightarrow> True
          | Some path \<Rightarrow>
              list_all (\<lambda>p. 0 \<le> px p \<and> px p < gridCols A \<and> 0 \<le> py p \<and> py p < gridRows A) path"
    using path_points_inside[OF assms] by (simp split: option.split)
  show "r < 0 \<or> r \<ge> gridRows A \<or> c < 0 \<or> c \<ge> gridCols A \<longrightarrow> \<not> isCellEmpty A r c"
    using isCellEmpty_inside[of A r c] by auto
  show "case checkTwoCorners A a b of
            None \<Rightarrow> True
          | Some (k1, k2) \<Rightarrow>
              0 \<le> row k1 \<and> row k1 < gridRows A \<and> 0 \<le> col k1 \<and> col k1 < gridCols A
              \<and> 0 \<le> row k2 \<and> row k2 < gridRows A \<and> 0 \<le> col k2 \<and> col k2 < gridCols A"
    using checkTwoCorners_valid[of A a b] isCellEmpty_inside
    unfolding isValidCorner_def by (auto split: option.split)
qed

text \<open>The theorem on the board with a blocked middle row, and at the position (-1, 0).\<close>

theorem path_never_leaves_board_witness:
  "isValidCell algoRowGap (boardRowGap ! 1 ! 0) \<and> isValidCell algoRowGap (boardRowGap ! 1 ! 2)
   \<and> getConnectionPath algoRowGap (boardRowGap ! 1 ! 0) (boardRowGap ! 1 ! 2)
       = Some [\<lparr>px = 0, py = 1\<rparr>, \<lparr>px = 0, py = 0\<rparr>, \<lparr>px = 2, py = 0\<rparr>, \<lparr>px = 2, py = 1\<rparr>]
   \<and> list_all (\<lambda>p. 0 \<le> px p \<and> px p < gridCols algoRowGap \<and> 0 \<le> py p \<and> py p < gridRows algoRowGap)
       [\<lparr>px = 0, py = 1\<rparr>, \<lparr>px = 0, py = 0\<rparr>, \<lparr>px = 2, py = 0\<rparr>, \<lparr>px = 2, py = 1\<rparr>]
   \<and> \<not> isCellEmpty algoRowGap (- 1) 0"
proof -
  have h: "isValidCell algoRowGap (boardRowGap ! 1 ! 0)" "isValidCell algoRowGap (boardRowGap ! 1 ! 2)"
    by code_simp+
  have p: "getConnectionPath algoRowGap (boardRowGap ! 1 ! 0) (boardRowGap ! 1 ! 2)
       = Some [\<lparr>px = 0, py = 1\<rparr>, \<lparr>px = 0, py = 0\<rparr>, \<lparr>px = 2, py = 0\<rparr>, \<lparr>px = 2, py = 1\<rparr>]"
    by code_simp
  from path_never_leaves_board[OF h, of "- 1" 0] p h show ?thesis by simp
qed

subsection \<open>The order of the search\<close>

lemma upto_split_at:
  "0 \<le> r \<Longrightarrow> r < n \<Longrightarrow> [0 .. n - 1] = [0 .. r - 1] @ r # [r + 1 .. n - 1]"
  using upto_split3[of 0 r "n - 1"] by simp

lemma checkTwoCorners_row_first:
  assumes "0 \<le> r" and "r < gridRows A" and "rowOK A a b r"
    and "list_all (\<lambda>r'. \<not> rowOK A a b r') [0 .. r - 1]"
  shows "checkTwoCorners A a b = Some (\<lparr>row = r, col = col a\<rparr>, \<lparr>row = r, col = col b\<rparr>)"
proof -
  have "\<forall>x\<in>set [0 .. r - 1]. \<not> rowOK A a b x" using assms(4) by (simp only: list_all_iff)
  then have "scanRows A a b ([0 .. r - 1] @ r # [r + 1 .. gridRows A - 1])
      = Some (\<lparr>row = r, col = col a\<rparr>, \<lparr>row = r, col = col b\<rparr>)"
    using assms(3) by (rule scanRows_first)
  then show ?thesis
    using upto_split_at[OF assms(1,2)] by (simp add: checkTwoCorners_def)
qed

lemma checkTwoCorners_col_first:
  assumes "list_all (\<lambda>r. \<not> rowOK A a b r) [0 .. gridRows A - 1]"
    and "0 \<le> c" and "c < gridCols A" and "colOK A a b c"
    and "list_all (\<lambda>c'. \<not> colOK A a b c') [0 .. c - 1]"
  shows "checkTwoCorners A a b = Some (\<lparr>row = row a, col = c\<rparr>, \<lparr>row = row b, col = c\<rparr>)"
proof -
  have "\<forall>x\<in>set [0 .. gridRows A - 1]. \<not> rowOK A a b x" using assms(1) by (simp only: list_all_iff)
  then have rows: "scanRows A a b [0 .. gridRows A - 1] = None"
    by (simp only: scanRows_None_iff)
  have "\<forall>x\<in>set [0 .. c - 1]. \<not> colOK A a b x" using assms(5) by (simp only: list_all_iff)
  then have "scanCols A a b ([0 .. c - 1] @ c # [c + 1 .. gridCols A - 1])
      = Some (\<lparr>row = row a, col = c\<rparr>, \<lparr>row = row b, col = c\<rparr>)"
    using assms(4) by (rule scanCols_first)
  then show ?thesis
    using upto_split_at[OF assms(2,3)] rows by (simp add: checkTwoCorners_def)
qed

lemma path_one_corner:
  "\<not> checkStraightLine A a b \<Longrightarrow> checkOneCorner A a b = Some cn \<Longrightarrow>
   getConnectionPath A a b =
     Some [\<lparr>px = col a, py = row a\<rparr>, \<lparr>px = col cn, py = row cn\<rparr>, \<lparr>px = col b, py = row b\<rparr>]"
  by (simp add: getConnectionPath_def)

lemma path_two_corners:
  "\<not> checkStraightLine A a b \<Longrightarrow> checkOneCorner A a b = None \<Longrightarrow>
   checkTwoCorners A a b = Some (k1, k2) \<Longrightarrow>
   getConnectionPath A a b =
     Some [\<lparr>px = col a, py = row a\<rparr>, \<lparr>px = col k1, py = row k1\<rparr>,
           \<lparr>px = col k2, py = row k2\<rparr>, \<lparr>px = col b, py = row b\<rparr>]"
  by (simp add: getConnectionPath_def)

text \<open>
  C5. The order of the search is fixed. In checkOneCorner the candidate (cellA.row,
  cellB.col) is tried first: when it is valid it is the corner returned, and the candidate
  (cellB.row, cellA.col) is returned only when the first is not valid and the second is; the
  corner returned is the middle point of the 3-point path. In checkTwoCorners the rows are
  tried in ascending order, and the first row that succeeds (never the row of an endpoint)
  gives the two corners, whatever the columns would give; the columns are tried, in
  ascending order and never the column of an endpoint, only when no row succeeds. The two
  corners found are the middle points of the 4-point path.
\<close>
theorem tie_break_order:
  "(cornerOK A a b \<lparr>row = row a, col = col b\<rparr>
      \<longrightarrow> checkOneCorner A a b = Some \<lparr>row = row a, col = col b\<rparr>)
   \<and> (\<not> cornerOK A a b \<lparr>row = row a, col = col b\<rparr> \<and> cornerOK A a b \<lparr>row = row b, col = col a\<rparr>
      \<longrightarrow> checkOneCorner A a b = Some \<lparr>row = row b, col = col a\<rparr>)
   \<and> (\<not> checkStraightLine A a b \<and> checkOneCorner A a b = Some cn
      \<longrightarrow> getConnectionPath A a b =
            Some [\<lparr>px = col a, py = row a\<rparr>, \<lparr>px = col cn, py = row cn\<rparr>,
                  \<lparr>px = col b, py = row b\<rparr>])
   \<and> (0 \<le> r \<and> r < gridRows A \<and> rowOK A a b r
        \<and> list_all (\<lambda>r'. \<not> rowOK A a b r') [0 .. r - 1]
      \<longrightarrow> checkTwoCorners A a b = Some (\<lparr>row = r, col = col a\<rparr>, \<lparr>row = r, col = col b\<rparr>)
          \<and> r \<noteq> row a \<and> r \<noteq> row b)
   \<and> (list_all (\<lambda>r'. \<not> rowOK A a b r') [0 .. gridRows A - 1]
        \<and> 0 \<le> c \<and> c < gridCols A \<and> colOK A a b c
        \<and> list_all (\<lambda>c'. \<not> colOK A a b c') [0 .. c - 1]
      \<longrightarrow> checkTwoCorners A a b = Some (\<lparr>row = row a, col = c\<rparr>, \<lparr>row = row b, col = c\<rparr>)
          \<and> c \<noteq> col a \<and> c \<noteq> col b)
   \<and> (\<not> checkStraightLine A a b \<and> checkOneCorner A a b = None
        \<and> checkTwoCorners A a b = Some (k1, k2)
      \<longrightarrow> getConnectionPath A a b =
            Some [\<lparr>px = col a, py = row a\<rparr>, \<lparr>px = col k1, py = row k1\<rparr>,
                  \<lparr>px = col k2, py = row k2\<rparr>, \<lparr>px = col b, py = row b\<rparr>])"
proof (intro conjI impI)
  assume "cornerOK A a b \<lparr>row = row a, col = col b\<rparr>"
  then show "checkOneCorner A a b = Some \<lparr>row = row a, col = col b\<rparr>"
    by (simp add: checkOneCorner_eq)
next
  assume "\<not> cornerOK A a b \<lparr>row = row a, col = col b\<rparr> \<and> cornerOK A a b \<lparr>row = row b, col = col a\<rparr>"
  then show "checkOneCorner A a b = Some \<lparr>row = row b, col = col a\<rparr>"
    by (simp add: checkOneCorner_eq)
next
  assume "\<not> checkStraightLine A a b \<and> checkOneCorner A a b = Some cn"
  then show "getConnectionPath A a b =
            Some [\<lparr>px = col a, py = row a\<rparr>, \<lparr>px = col cn, py = row cn\<rparr>,
                  \<lparr>px = col b, py = row b\<rparr>]"
    using path_one_corner[of A a b cn] by blast
next
  assume h: "0 \<le> r \<and> r < gridRows A \<and> rowOK A a b r
        \<and> list_all (\<lambda>r'. \<not> rowOK A a b r') [0 .. r - 1]"
  then show "checkTwoCorners A a b = Some (\<lparr>row = r, col = col a\<rparr>, \<lparr>row = r, col = col b\<rparr>)"
    using checkTwoCorners_row_first[of r A a b] by blast
  from h show "r \<noteq> row a" "r \<noteq> row b" by (simp_all add: rowOK_def)
next
  assume h: "list_all (\<lambda>r'. \<not> rowOK A a b r') [0 .. gridRows A - 1]
        \<and> 0 \<le> c \<and> c < gridCols A \<and> colOK A a b c
        \<and> list_all (\<lambda>c'. \<not> colOK A a b c') [0 .. c - 1]"
  then show "checkTwoCorners A a b = Some (\<lparr>row = row a, col = c\<rparr>, \<lparr>row = row b, col = c\<rparr>)"
    using checkTwoCorners_col_first[of A a b c] by blast
  from h show "c \<noteq> col a" "c \<noteq> col b" by (simp_all add: colOK_def)
next
  assume "\<not> checkStraightLine A a b \<and> checkOneCorner A a b = None
        \<and> checkTwoCorners A a b = Some (k1, k2)"
  then show "getConnectionPath A a b =
            Some [\<lparr>px = col a, py = row a\<rparr>, \<lparr>px = col k1, py = row k1\<rparr>,
                  \<lparr>px = col k2, py = row k2\<rparr>, \<lparr>px = col b, py = row b\<rparr>]"
    using path_two_corners[of A a b k1 k2] by blast
qed

text \<open>
  The theorem at four inputs: on \<open>board2x2\<close> both candidate corners are valid and the first
  is returned; on \<open>board2x2b\<close> the first is occupied and the second is returned; on
  \<open>boardRowGap\<close> rows 0 and 2 both succeed and row 0 gives the corners; on \<open>boardColGap\<close>
  no row succeeds, columns 0 and 2 both do, and column 0 gives the corners.
\<close>

theorem tie_break_order_witness:
  "cornerOK algo2x2 (board2x2 ! 0 ! 0) (board2x2 ! 1 ! 1) \<lparr>row = 0, col = 1\<rparr>
   \<and> cornerOK algo2x2 (board2x2 ! 0 ! 0) (board2x2 ! 1 ! 1) \<lparr>row = 1, col = 0\<rparr>
   \<and> checkOneCorner algo2x2 (board2x2 ! 0 ! 0) (board2x2 ! 1 ! 1) = Some \<lparr>row = 0, col = 1\<rparr>
   \<and> \<not> cornerOK algo2x2b (board2x2b ! 0 ! 0) (board2x2b ! 1 ! 1) \<lparr>row = 0, col = 1\<rparr>
   \<and> cornerOK algo2x2b (board2x2b ! 0 ! 0) (board2x2b ! 1 ! 1) \<lparr>row = 1, col = 0\<rparr>
   \<and> \<not> checkStraightLine algo2x2b (board2x2b ! 0 ! 0) (board2x2b ! 1 ! 1)
   \<and> checkOneCorner algo2x2b (board2x2b ! 0 ! 0) (board2x2b ! 1 ! 1) = Some \<lparr>row = 1, col = 0\<rparr>
   \<and> getConnectionPath algo2x2b (board2x2b ! 0 ! 0) (board2x2b ! 1 ! 1)
       = Some [\<lparr>px = 0, py = 0\<rparr>, \<lparr>px = 0, py = 1\<rparr>, \<lparr>px = 1, py = 1\<rparr>]
   \<and> rowOK algoRowGap (boardRowGap ! 1 ! 0) (boardRowGap ! 1 ! 2) 0
   \<and> rowOK algoRowGap (boardRowGap ! 1 ! 0) (boardRowGap ! 1 ! 2) 2
   \<and> \<not> checkStraightLine algoRowGap (boardRowGap ! 1 ! 0) (boardRowGap ! 1 ! 2)
   \<and> checkOneCorner algoRowGap (boardRowGap ! 1 ! 0) (boardRowGap ! 1 ! 2) = None
   \<and> checkTwoCorners algoRowGap (boardRowGap ! 1 ! 0) (boardRowGap ! 1 ! 2)
       = Some (\<lparr>row = 0, col = 0\<rparr>, \<lparr>row = 0, col = 2\<rparr>)
   \<and> getConnectionPath algoRowGap (boardRowGap ! 1 ! 0) (boardRowGap ! 1 ! 2)
       = Some [\<lparr>px = 0, py = 1\<rparr>, \<lparr>px = 0, py = 0\<rparr>, \<lparr>px = 2, py = 0\<rparr>, \<lparr>px = 2, py = 1\<rparr>]
   \<and> list_all (\<lambda>r'. \<not> rowOK algoColGap (boardColGap ! 0 ! 1) (boardColGap ! 2 ! 1) r') [0 .. 2]
   \<and> colOK algoColGap (boardColGap ! 0 ! 1) (boardColGap ! 2 ! 1) 0
   \<and> colOK algoColGap (boardColGap ! 0 ! 1) (boardColGap ! 2 ! 1) 2
   \<and> checkTwoCorners algoColGap (boardColGap ! 0 ! 1) (boardColGap ! 2 ! 1)
       = Some (\<lparr>row = 0, col = 0\<rparr>, \<lparr>row = 2, col = 0\<rparr>)"
proof -
  let ?a = "board2x2 ! 0 ! 0" and ?b = "board2x2 ! 1 ! 1"
  let ?a2 = "board2x2b ! 0 ! 0" and ?b2 = "board2x2b ! 1 ! 1"
  let ?a3 = "boardRowGap ! 1 ! 0" and ?b3 = "boardRowGap ! 1 ! 2"
  let ?a4 = "boardColGap ! 0 ! 1" and ?b4 = "boardColGap ! 2 ! 1"
  have rc: "row ?a = 0" "col ?a = 0" "row ?b = 1" "col ?b = 1"
    "row ?a2 = 0" "col ?a2 = 0" "row ?b2 = 1" "col ?b2 = 1"
    "row ?a3 = 1" "col ?a3 = 0" "row ?b3 = 1" "col ?b3 = 2"
    "row ?a4 = 0" "col ?a4 = 1" "row ?b4 = 2" "col ?b4 = 1"
    "gridRows algoRowGap = 3" "gridRows algoColGap = 3" "gridCols algoColGap = 3"
    by code_simp+
  have h1: "cornerOK algo2x2 ?a ?b \<lparr>row = 0, col = 1\<rparr>"
    "cornerOK algo2x2 ?a ?b \<lparr>row = 1, col = 0\<rparr>" by code_simp+
  have h2: "\<not> cornerOK algo2x2b ?a2 ?b2 \<lparr>row = 0, col = 1\<rparr>"
    "cornerOK algo2x2b ?a2 ?b2 \<lparr>row = 1, col = 0\<rparr>"
    "\<not> checkStraightLine algo2x2b ?a2 ?b2" by code_simp+
  have h3: "rowOK algoRowGap ?a3 ?b3 0" "rowOK algoRowGap ?a3 ?b3 2"
    "\<not> checkStraightLine algoRowGap ?a3 ?b3" "checkOneCorner algoRowGap ?a3 ?b3 = None"
    "list_all (\<lambda>r'. \<not> rowOK algoRowGap ?a3 ?b3 r') [0 .. 0 - 1]"
    by code_simp+
  have h4: "list_all (\<lambda>r'. \<not> rowOK algoColGap ?a4 ?b4 r') [0 .. 2]"
    "colOK algoColGap ?a4 ?b4 0" "colOK algoColGap ?a4 ?b4 2"
    "list_all (\<lambda>c'. \<not> colOK algoColGap ?a4 ?b4 c') [0 .. 0 - 1]"
    by code_simp+
  note t1 = tie_break_order[of algo2x2 ?a ?b, unfolded rc]
  note t2 = tie_break_order[of algo2x2b ?a2 ?b2 "\<lparr>row = 1, col = 0\<rparr>", unfolded rc]
  note t3 = tie_break_order[of algoRowGap ?a3 ?b3 _ 0 _ "\<lparr>row = 0, col = 0\<rparr>" "\<lparr>row = 0, col = 2\<rparr>", unfolded rc]
  note t4 = tie_break_order[of algoColGap ?a4 ?b4 _ _ 0, unfolded rc]
  have c1: "checkOneCorner algo2x2 ?a ?b = Some \<lparr>row = 0, col = 1\<rparr>"
    using t1 h1 by blast
  have c2: "checkOneCorner algo2x2b ?a2 ?b2 = Some \<lparr>row = 1, col = 0\<rparr>"
    using t2 h2 by blast
  have c2p: "getConnectionPath algo2x2b ?a2 ?b2
       = Some [\<lparr>px = 0, py = 0\<rparr>, \<lparr>px = 0, py = 1\<rparr>, \<lparr>px = 1, py = 1\<rparr>]"
    using t2 h2 c2 by simp
  have c3: "checkTwoCorners algoRowGap ?a3 ?b3 = Some (\<lparr>row = 0, col = 0\<rparr>, \<lparr>row = 0, col = 2\<rparr>)"
    using t3 h3 by simp
  have c3p: "getConnectionPath algoRowGap ?a3 ?b3
       = Some [\<lparr>px = 0, py = 1\<rparr>, \<lparr>px = 0, py = 0\<rparr>, \<lparr>px = 2, py = 0\<rparr>, \<lparr>px = 2, py = 1\<rparr>]"
    using t3 h3 c3 by simp
  have c4: "checkTwoCorners algoColGap ?a4 ?b4 = Some (\<lparr>row = 0, col = 0\<rparr>, \<lparr>row = 2, col = 0\<rparr>)"
    using t4 h4 by simp
  show ?thesis using h1 h2 h3 h4 c1 c2 c2p c3 c3p c4 by blast
qed

subsection \<open>The matched flag of the endpoints\<close>

text \<open>
  C2. canConnectInGrid returns false whenever one of the two cells is matched: for every
  pair of distinct in-bounds cells with equal non-null pattern ids of which at least one is
  matched, canConnectInGrid is false. canConnect makes no such test: on the board
  \<open>board1x2m\<close>, whose first cell is matched, it returns true for such a pair.
\<close>

theorem matched_endpoint_asymmetry:
  "(isValidCell A a \<and> isValidCell A b \<and> a \<noteq> b \<and> pattern a \<noteq> None \<and> pattern b \<noteq> None
      \<and> pid (the (pattern a)) = pid (the (pattern b)) \<and> (matched a \<or> matched b)
     \<longrightarrow> \<not> canConnectInGrid A a b g)
   \<and> (\<exists>A' a' b'. LinkGameAlgorithm (grid A') = Some A'
        \<and> a' = grid A' ! 0 ! 0 \<and> b' = grid A' ! 0 ! 1
        \<and> isValidCell A' a' \<and> isValidCell A' b' \<and> a' \<noteq> b'
        \<and> pattern a' \<noteq> None \<and> pattern b' \<noteq> None
        \<and> pid (the (pattern a')) = pid (the (pattern b')) \<and> matched a'
        \<and> canConnect A' a' b')"
proof (intro conjI impI)
  assume "isValidCell A a \<and> isValidCell A b \<and> a \<noteq> b \<and> pattern a \<noteq> None \<and> pattern b \<noteq> None
      \<and> pid (the (pattern a)) = pid (the (pattern b)) \<and> (matched a \<or> matched b)"
  then show "\<not> canConnectInGrid A a b g" by (auto simp: canConnectInGrid_def)
next
  have "LinkGameAlgorithm (grid algo1x2m) = Some algo1x2m
        \<and> isValidCell algo1x2m (grid algo1x2m ! 0 ! 0) \<and> isValidCell algo1x2m (grid algo1x2m ! 0 ! 1)
        \<and> grid algo1x2m ! 0 ! 0 \<noteq> grid algo1x2m ! 0 ! 1
        \<and> pattern (grid algo1x2m ! 0 ! 0) \<noteq> None \<and> pattern (grid algo1x2m ! 0 ! 1) \<noteq> None
        \<and> pid (the (pattern (grid algo1x2m ! 0 ! 0))) = pid (the (pattern (grid algo1x2m ! 0 ! 1)))
        \<and> matched (grid algo1x2m ! 0 ! 0)
        \<and> canConnect algo1x2m (grid algo1x2m ! 0 ! 0) (grid algo1x2m ! 0 ! 1)"
    by code_simp
  then show "\<exists>A' a' b'. LinkGameAlgorithm (grid A') = Some A'
        \<and> a' = grid A' ! 0 ! 0 \<and> b' = grid A' ! 0 ! 1
        \<and> isValidCell A' a' \<and> isValidCell A' b' \<and> a' \<noteq> b'
        \<and> pattern a' \<noteq> None \<and> pattern b' \<noteq> None
        \<and> pid (the (pattern a')) = pid (the (pattern b')) \<and> matched a'
        \<and> canConnect A' a' b'" by blast
qed

text \<open>
  The theorem on \<open>board1x2m\<close>: the two cells satisfy the hypothesis, canConnect is true
  and canConnectInGrid is false.
\<close>

theorem matched_endpoint_asymmetry_witness:
  "isValidCell algo1x2m (board1x2m ! 0 ! 0) \<and> isValidCell algo1x2m (board1x2m ! 0 ! 1)
   \<and> board1x2m ! 0 ! 0 \<noteq> board1x2m ! 0 ! 1
   \<and> pattern (board1x2m ! 0 ! 0) \<noteq> None \<and> pattern (board1x2m ! 0 ! 1) \<noteq> None
   \<and> pid (the (pattern (board1x2m ! 0 ! 0))) = pid (the (pattern (board1x2m ! 0 ! 1)))
   \<and> matched (board1x2m ! 0 ! 0)
   \<and> canConnect algo1x2m (board1x2m ! 0 ! 0) (board1x2m ! 0 ! 1)
   \<and> \<not> canConnectInGrid algo1x2m (board1x2m ! 0 ! 0) (board1x2m ! 0 ! 1) board1x2m"
proof -
  have h: "isValidCell algo1x2m (board1x2m ! 0 ! 0) \<and> isValidCell algo1x2m (board1x2m ! 0 ! 1)
   \<and> board1x2m ! 0 ! 0 \<noteq> board1x2m ! 0 ! 1
   \<and> pattern (board1x2m ! 0 ! 0) \<noteq> None \<and> pattern (board1x2m ! 0 ! 1) \<noteq> None
   \<and> pid (the (pattern (board1x2m ! 0 ! 0))) = pid (the (pattern (board1x2m ! 0 ! 1)))
   \<and> matched (board1x2m ! 0 ! 0)
   \<and> canConnect algo1x2m (board1x2m ! 0 ! 0) (board1x2m ! 0 ! 1)" by code_simp
  with matched_endpoint_asymmetry[of algo1x2m "board1x2m ! 0 ! 0" "board1x2m ! 0 ! 1" board1x2m]
  show ?thesis by blast
qed

subsection \<open>Straight lines\<close>

lemma isCellEmpty_cell:
  "0 \<le> r \<Longrightarrow> r < gridRows A \<Longrightarrow> 0 \<le> c \<Longrightarrow> c < gridCols A \<Longrightarrow>
   isCellEmpty A r c = cellEmpty (grid A ! nat r ! nat c)"
  by (simp add: isCellEmpty_def cellEmpty_def Let_def)

lemma checkHorizontalLine_cells:
  assumes "isValidCell A a" and "isValidCell A b"
  shows "checkHorizontalLine A a b =
     list_all (\<lambda>c. cellEmpty (grid A ! nat (row a) ! nat c))
       [min (col a) (col b) + 1 .. max (col a) (col b) - 1]"
proof -
  have "\<And>c. c \<in> set [min (col a) (col b) + 1 .. max (col a) (col b) - 1] \<Longrightarrow>
      isCellEmpty A (row a) c = cellEmpty (grid A ! nat (row a) ! nat c)"
    using assms by (intro isCellEmpty_cell) (auto simp: isValidCell_def split: if_splits)
  then show ?thesis
    unfolding checkHorizontalLine_def Let_def list_all_iff by blast
qed

lemma checkVerticalLine_cells:
  assumes "isValidCell A a" and "isValidCell A b"
  shows "checkVerticalLine A a b =
     list_all (\<lambda>r. cellEmpty (grid A ! nat r ! nat (col a)))
       [min (row a) (row b) + 1 .. max (row a) (row b) - 1]"
proof -
  have "\<And>r. r \<in> set [min (row a) (row b) + 1 .. max (row a) (row b) - 1] \<Longrightarrow>
      isCellEmpty A r (col a) = cellEmpty (grid A ! nat r ! nat (col a))"
    using assms by (intro isCellEmpty_cell) (auto simp: isValidCell_def split: if_splits)
  then show ?thesis
    unfolding checkVerticalLine_def Let_def list_all_iff by blast
qed

lemma placeBlocker_dims:
  "gridRows (placeBlocker A r c) = gridRows A" "gridCols (placeBlocker A r c) = gridCols A"
  by (simp_all add: placeBlocker_def)

lemma placeBlocker_cell:
  assumes "rectangular A" and "0 \<le> r" and "r < gridRows A" and "0 \<le> c" and "c < gridCols A"
  shows "\<not> isCellEmpty (placeBlocker A r c) r c"
proof -
  have r: "nat r < length (grid A)" using assms by (simp add: rectangular_def)
  then have "grid A ! nat r \<in> set (grid A)" by simp
  then have "int (length (grid A ! nat r)) = gridCols A"
    using assms(1) by (simp add: rectangular_def list_all_iff)
  then have c: "nat c < length (grid A ! nat r)" using assms by simp
  show ?thesis
    using assms r c by (simp add: isCellEmpty_def placeBlocker_def)
qed

lemma blocked_row:
  assumes "rectangular A" and "isValidCell A a" and "isValidCell A b" and "row a = row b"
    and "min (col a) (col b) < c" and "c < max (col a) (col b)"
  shows "\<not> checkStraightLine (placeBlocker A (row a) c) a b"
proof -
  have "\<not> isCellEmpty (placeBlocker A (row a) c) (row a) c"
    using assms by (intro placeBlocker_cell) (auto simp: isValidCell_def split: if_splits)
  moreover have "c \<in> set [min (col a) (col b) + 1 .. max (col a) (col b) - 1]"
    using assms by simp
  ultimately show ?thesis
    using assms(4) unfolding checkStraightLine_def checkHorizontalLine_def Let_def list_all_iff
    by auto
qed

lemma blocked_col:
  assumes "rectangular A" and "isValidCell A a" and "isValidCell A b" and "row a \<noteq> row b"
    and "col a = col b" and "min (row a) (row b) < r" and "r < max (row a) (row b)"
  shows "\<not> checkStraightLine (placeBlocker A r (col a)) a b"
proof -
  have "\<not> isCellEmpty (placeBlocker A r (col a)) r (col a)"
    using assms by (intro placeBlocker_cell) (auto simp: isValidCell_def split: if_splits)
  moreover have "r \<in> set [min (row a) (row b) + 1 .. max (row a) (row b) - 1]"
    using assms by simp
  ultimately show ?thesis
    using assms(4,5) unfolding checkStraightLine_def checkVerticalLine_def Let_def list_all_iff
    by auto
qed

text \<open>
  C4. For two distinct in-bounds cells of a rectangular board: if they share a row,
  checkStraightLine succeeds exactly when every cell strictly between them in that row is
  empty (not visible, or matched); if they share a column, exactly when every cell strictly
  between them in that column is empty; if they share neither, it fails; and after any cell
  strictly between them (in the shared row or column) is made visible and unmatched, it
  fails.
\<close>

theorem straight_line_correct:
  assumes "rectangular A" and "isValidCell A a" and "isValidCell A b"
    and "row a \<noteq> row b \<or> col a \<noteq> col b"
  shows "(row a = row b \<longrightarrow>
            checkStraightLine A a b =
              list_all (\<lambda>c. cellEmpty (grid A ! nat (row a) ! nat c))
                [min (col a) (col b) + 1 .. max (col a) (col b) - 1])
     \<and> (col a = col b \<longrightarrow>
            checkStraightLine A a b =
              list_all (\<lambda>r. cellEmpty (grid A ! nat r ! nat (col a)))
                [min (row a) (row b) + 1 .. max (row a) (row b) - 1])
     \<and> (row a \<noteq> row b \<and> col a \<noteq> col b \<longrightarrow> \<not> checkStraightLine A a b)
     \<and> (row a = row b \<and> min (col a) (col b) < k \<and> k < max (col a) (col b)
          \<longrightarrow> \<not> checkStraightLine (placeBlocker A (row a) k) a b)
     \<and> (col a = col b \<and> min (row a) (row b) < k \<and> k < max (row a) (row b)
          \<longrightarrow> \<not> checkStraightLine (placeBlocker A k (col a)) a b)"
proof (intro conjI impI)
  assume "row a = row b"
  then show "checkStraightLine A a b =
      list_all (\<lambda>c. cellEmpty (grid A ! nat (row a) ! nat c))
        [min (col a) (col b) + 1 .. max (col a) (col b) - 1]"
    using checkHorizontalLine_cells[OF assms(2,3)] by (simp add: checkStraightLine_def)
next
  assume "col a = col b"
  then show "checkStraightLine A a b =
      list_all (\<lambda>r. cellEmpty (grid A ! nat r ! nat (col a)))
        [min (row a) (row b) + 1 .. max (row a) (row b) - 1]"
    using checkVerticalLine_cells[OF assms(2,3)] assms(4) by (simp add: checkStraightLine_def)
next
  assume "row a \<noteq> row b \<and> col a \<noteq> col b"
  then show "\<not> checkStraightLine A a b" by (simp add: checkStraightLine_def)
next
  assume "row a = row b \<and> min (col a) (col b) < k \<and> k < max (col a) (col b)"
  then show "\<not> checkStraightLine (placeBlocker A (row a) k) a b"
    using blocked_row[OF assms(1,2,3), of k] by blast
next
  assume h: "col a = col b \<and> min (row a) (row b) < k \<and> k < max (row a) (row b)"
  then have "row a \<noteq> row b" using assms(4) by blast
  with h show "\<not> checkStraightLine (placeBlocker A k (col a)) a b"
    using blocked_col[OF assms(1,2,3), of k] by blast
qed

text \<open>
  The theorem on \<open>boardRowOpen\<close>, where the cell between the two cells of row 1 is
  matched: the line check succeeds, and fails once that cell is made a blocker.
\<close>

theorem straight_line_correct_witness:
  "rectangular algoRowOpen
   \<and> isValidCell algoRowOpen (boardRowOpen ! 1 ! 0) \<and> isValidCell algoRowOpen (boardRowOpen ! 1 ! 2)
   \<and> col (boardRowOpen ! 1 ! 0) \<noteq> col (boardRowOpen ! 1 ! 2)
   \<and> row (boardRowOpen ! 1 ! 0) = row (boardRowOpen ! 1 ! 2)
   \<and> list_all (\<lambda>c. cellEmpty (grid algoRowOpen ! nat (row (boardRowOpen ! 1 ! 0)) ! nat c))
       [min (col (boardRowOpen ! 1 ! 0)) (col (boardRowOpen ! 1 ! 2)) + 1 ..
        max (col (boardRowOpen ! 1 ! 0)) (col (boardRowOpen ! 1 ! 2)) - 1]
   \<and> checkStraightLine algoRowOpen (boardRowOpen ! 1 ! 0) (boardRowOpen ! 1 ! 2)
   \<and> min (col (boardRowOpen ! 1 ! 0)) (col (boardRowOpen ! 1 ! 2)) < 1
   \<and> 1 < max (col (boardRowOpen ! 1 ! 0)) (col (boardRowOpen ! 1 ! 2))
   \<and> \<not> checkStraightLine (placeBlocker algoRowOpen (row (boardRowOpen ! 1 ! 0)) 1)
          (boardRowOpen ! 1 ! 0) (boardRowOpen ! 1 ! 2)"
proof -
  have h: "rectangular algoRowOpen"
    "isValidCell algoRowOpen (boardRowOpen ! 1 ! 0)" "isValidCell algoRowOpen (boardRowOpen ! 1 ! 2)"
    "row (boardRowOpen ! 1 ! 0) \<noteq> row (boardRowOpen ! 1 ! 2)
     \<or> col (boardRowOpen ! 1 ! 0) \<noteq> col (boardRowOpen ! 1 ! 2)"
    by code_simp+
  have e: "col (boardRowOpen ! 1 ! 0) \<noteq> col (boardRowOpen ! 1 ! 2)"
    "row (boardRowOpen ! 1 ! 0) = row (boardRowOpen ! 1 ! 2)"
    "list_all (\<lambda>c. cellEmpty (grid algoRowOpen ! nat (row (boardRowOpen ! 1 ! 0)) ! nat c))
       [min (col (boardRowOpen ! 1 ! 0)) (col (boardRowOpen ! 1 ! 2)) + 1 ..
        max (col (boardRowOpen ! 1 ! 0)) (col (boardRowOpen ! 1 ! 2)) - 1]"
    "min (col (boardRowOpen ! 1 ! 0)) (col (boardRowOpen ! 1 ! 2)) < 1"
    "1 < max (col (boardRowOpen ! 1 ! 0)) (col (boardRowOpen ! 1 ! 2))"
    by code_simp+
  from straight_line_correct[OF h, of 1] h e show ?thesis by blast
qed

subsection \<open>Monotonicity in the empty cells\<close>

lemma mono_horizontal:
  assumes "\<forall>r c. isCellEmpty A r c \<longrightarrow> isCellEmpty A' r c"
    and "checkHorizontalLine A u v"
  shows "checkHorizontalLine A' u v"
  using assms unfolding checkHorizontalLine_def Let_def list_all_iff by simp

lemma mono_vertical:
  assumes "\<forall>r c. isCellEmpty A r c \<longrightarrow> isCellEmpty A' r c"
    and "checkVerticalLine A u v"
  shows "checkVerticalLine A' u v"
  using assms unfolding checkVerticalLine_def Let_def list_all_iff by simp

lemma mono_straight:
  assumes "\<forall>r c. isCellEmpty A r c \<longrightarrow> isCellEmpty A' r c"
    and "checkStraightLine A u v"
  shows "checkStraightLine A' u v"
proof (cases "row u = row v")
  case True
  with assms(2) have "checkHorizontalLine A u v" by (simp add: checkStraightLine_def)
  then have "checkHorizontalLine A' u v" by (rule mono_horizontal[OF assms(1)])
  with True show ?thesis by (simp add: checkStraightLine_def)
next
  case False
  with assms(2) have c: "col u = col v" and cv: "checkVerticalLine A u v"
    by (simp_all add: checkStraightLine_def split: if_splits)
  from cv have "checkVerticalLine A' u v" by (rule mono_vertical[OF assms(1)])
  with False c show ?thesis by (simp add: checkStraightLine_def)
qed

lemma mono_cornerOK:
  assumes e: "\<forall>r c. isCellEmpty A r c \<longrightarrow> isCellEmpty A' r c"
    and "cornerOK A u v cn"
  shows "cornerOK A' u v cn"
proof -
  from assms(2) have h: "isCellEmpty A (row cn) (col cn)" "checkStraightLine A u cn"
    "checkStraightLine A cn v" by (simp_all add: cornerOK_def isValidCorner_def)
  have "isCellEmpty A' (row cn) (col cn)" using h(1) e by simp
  moreover have "checkStraightLine A' u cn" using h(2) by (rule mono_straight[OF e])
  moreover have "checkStraightLine A' cn v" using h(3) by (rule mono_straight[OF e])
  ultimately show ?thesis by (simp add: cornerOK_def isValidCorner_def)
qed

lemma mono_rowOK:
  assumes e: "\<forall>r c. isCellEmpty A r c \<longrightarrow> isCellEmpty A' r c"
    and "rowOK A u v k"
  shows "rowOK A' u v k"
proof -
  let ?k1 = "\<lparr>row = k, col = col u\<rparr>" and ?k2 = "\<lparr>row = k, col = col v\<rparr>"
  from assms(2) have n: "k \<noteq> row u" "k \<noteq> row v"
    and h: "isCellEmpty A k (col u)" "isCellEmpty A k (col v)"
      "checkStraightLine A u ?k1" "checkHorizontalLine A ?k1 ?k2" "checkStraightLine A ?k2 v"
    by (simp_all add: rowOK_def isValidCorner_def)
  have "isCellEmpty A' k (col u)" "isCellEmpty A' k (col v)"
    using h(1,2) e by simp_all
  moreover have "checkStraightLine A' u ?k1" using h(3) by (rule mono_straight[OF e])
  moreover have "checkHorizontalLine A' ?k1 ?k2" using h(4) by (rule mono_horizontal[OF e])
  moreover have "checkStraightLine A' ?k2 v" using h(5) by (rule mono_straight[OF e])
  ultimately show ?thesis using n by (simp add: rowOK_def isValidCorner_def)
qed

lemma mono_colOK:
  assumes e: "\<forall>r c. isCellEmpty A r c \<longrightarrow> isCellEmpty A' r c"
    and "colOK A u v k"
  shows "colOK A' u v k"
proof -
  let ?k1 = "\<lparr>row = row u, col = k\<rparr>" and ?k2 = "\<lparr>row = row v, col = k\<rparr>"
  from assms(2) have n: "k \<noteq> col u" "k \<noteq> col v"
    and h: "isCellEmpty A (row u) k" "isCellEmpty A (row v) k"
      "checkStraightLine A u ?k1" "checkVerticalLine A ?k1 ?k2" "checkStraightLine A ?k2 v"
    by (simp_all add: colOK_def isValidCorner_def)
  have "isCellEmpty A' (row u) k" "isCellEmpty A' (row v) k"
    using h(1,2) e by simp_all
  moreover have "checkStraightLine A' u ?k1" using h(3) by (rule mono_straight[OF e])
  moreover have "checkVerticalLine A' ?k1 ?k2" using h(4) by (rule mono_vertical[OF e])
  moreover have "checkStraightLine A' ?k2 v" using h(5) by (rule mono_straight[OF e])
  ultimately show ?thesis using n by (simp add: colOK_def isValidCorner_def)
qed

lemma mono_canConnect:
  assumes dims: "gridRows A' = gridRows A" "gridCols A' = gridCols A"
    and e: "\<forall>r c. isCellEmpty A r c \<longrightarrow> isCellEmpty A' r c"
    and c: "canConnect A a b"
  shows "canConnect A' a b"
proof -
  have v: "isValidCell A' a" "isValidCell A' b" "a \<noteq> b" "pattern a \<noteq> None" "pattern b \<noteq> None"
    "pid (the (pattern a)) = pid (the (pattern b))"
    using c dims by (auto simp: canConnect_def isValidCell_def split: if_splits)
  have "checkStraightLine A a b \<or> checkOneCorner A a b \<noteq> None \<or> checkTwoCorners A a b \<noteq> None"
    using c by (auto simp: canConnect_def split: if_splits)
  then have "checkStraightLine A' a b \<or> checkOneCorner A' a b \<noteq> None
      \<or> checkTwoCorners A' a b \<noteq> None"
  proof (elim disjE)
    assume "checkStraightLine A a b"
    then have "checkStraightLine A' a b" by (rule mono_straight[OF e])
    then show ?thesis by simp
  next
    assume "checkOneCorner A a b \<noteq> None"
    then consider "cornerOK A a b \<lparr>row = row a, col = col b\<rparr>"
      | "cornerOK A a b \<lparr>row = row b, col = col a\<rparr>"
      by (auto simp: checkOneCorner_eq split: if_splits)
    then have "checkOneCorner A' a b \<noteq> None"
    proof cases
      case 1
      then have "cornerOK A' a b \<lparr>row = row a, col = col b\<rparr>" by (rule mono_cornerOK[OF e])
      then show ?thesis by (simp add: checkOneCorner_eq)
    next
      case 2
      then have "cornerOK A' a b \<lparr>row = row b, col = col a\<rparr>" by (rule mono_cornerOK[OF e])
      then show ?thesis by (simp add: checkOneCorner_eq)
    qed
    then show ?thesis by simp
  next
    assume "checkTwoCorners A a b \<noteq> None"
    then consider k where "k \<in> set [0 .. gridRows A - 1]" "rowOK A a b k"
      | k where "k \<in> set [0 .. gridCols A - 1]" "colOK A a b k"
      unfolding checkTwoCorners_None_iff by blast
    then have "checkTwoCorners A' a b \<noteq> None"
    proof cases
      case 1
      from 1(2) have "rowOK A' a b k" by (rule mono_rowOK[OF e])
      with 1(1) show ?thesis unfolding checkTwoCorners_None_iff dims by blast
    next
      case 2
      from 2(2) have "colOK A' a b k" by (rule mono_colOK[OF e])
      with 2(1) show ?thesis unfolding checkTwoCorners_None_iff dims by blast
    qed
    then show ?thesis by simp
  qed
  with v show ?thesis by (simp add: canConnect_def)
qed

text \<open>
  C9. canConnect is monotone in the empty cells: for two boards with the same dimensions,
  if every cell that is empty (not visible, or matched) on the first is also empty on the
  second, and canConnect(a, b) is true on the first, then it is true on the second, for
  the same cells a and b.
\<close>

theorem canConnect_monotone:
  assumes "gridRows A' = gridRows A" and "gridCols A' = gridCols A"
    and "list_all (\<lambda>r. list_all (\<lambda>c. cellEmpty (grid A ! nat r ! nat c)
              \<longrightarrow> cellEmpty (grid A' ! nat r ! nat c)) [0 .. gridCols A - 1]) [0 .. gridRows A - 1]"
    and "canConnect A a b"
  shows "canConnect A' a b"
proof -
  have "isCellEmpty A' r c" if "isCellEmpty A r c" for r c
  proof -
    from that have b: "0 \<le> r" "r < gridRows A" "0 \<le> c" "c < gridCols A"
      by (auto simp: isCellEmpty_def split: if_splits)
    then have "r \<in> set [0 .. gridRows A - 1]" "c \<in> set [0 .. gridCols A - 1]" by simp_all
    with assms(3) have "cellEmpty (grid A ! nat r ! nat c) \<longrightarrow> cellEmpty (grid A' ! nat r ! nat c)"
      unfolding list_all_iff by blast
    with that b show ?thesis
      using isCellEmpty_cell[of r A c] isCellEmpty_cell[of r A' c] assms(1,2) by simp
  qed
  then have "\<forall>r c. isCellEmpty A r c \<longrightarrow> isCellEmpty A' r c" by blast
  with assms(1,2) show ?thesis using assms(4) by (rule mono_canConnect)
qed

text \<open>
  The theorem from \<open>boardRowGap\<close>, where the two cells connect around the blocker, to
  \<open>boardRowOpen\<close>, where the blocker has been matched.
\<close>

theorem canConnect_monotone_witness:
  "gridRows algoRowOpen = gridRows algoRowGap \<and> gridCols algoRowOpen = gridCols algoRowGap
   \<and> list_all (\<lambda>r. list_all (\<lambda>c. \<not> cellEmpty (grid algoRowGap ! nat r ! nat c)
              \<or> cellEmpty (grid algoRowOpen ! nat r ! nat c)) [0 .. gridCols algoRowGap - 1])
        [0 .. gridRows algoRowGap - 1]
   \<and> canConnect algoRowGap (boardRowGap ! 1 ! 0) (boardRowGap ! 1 ! 2)
   \<and> canConnect algoRowOpen (boardRowGap ! 1 ! 0) (boardRowGap ! 1 ! 2)"
proof -
  have h: "gridRows algoRowOpen = gridRows algoRowGap" "gridCols algoRowOpen = gridCols algoRowGap"
    "list_all (\<lambda>r. list_all (\<lambda>c. cellEmpty (grid algoRowGap ! nat r ! nat c)
              \<longrightarrow> cellEmpty (grid algoRowOpen ! nat r ! nat c)) [0 .. gridCols algoRowGap - 1])
        [0 .. gridRows algoRowGap - 1]"
    "canConnect algoRowGap (boardRowGap ! 1 ! 0) (boardRowGap ! 1 ! 2)"
    by code_simp+
  have h3: "list_all (\<lambda>r. list_all (\<lambda>c. \<not> cellEmpty (grid algoRowGap ! nat r ! nat c)
              \<or> cellEmpty (grid algoRowOpen ! nat r ! nat c)) [0 .. gridCols algoRowGap - 1])
        [0 .. gridRows algoRowGap - 1]"
    by code_simp
  from canConnect_monotone[OF h] h h3 show ?thesis by blast
qed

section \<open>The solvability check leaves the live board alone\<close>

lemma pairsOf_members: "(x, y) \<in> set (pairsOf xs) \<Longrightarrow> x \<in> set xs \<and> y \<in> set xs"
  by (induction xs) auto

lemma visible_addr:
  "a \<in> set (getVisibleCellsFromGrid R h g) \<Longrightarrow>
   \<exists>r<nat (gridRowsRef R). \<exists>c<nat (gridColsRef R). a = g ! r ! c"
  unfolding getVisibleCellsFromGrid_def by fastforce

lemma pairs_addr:
  assumes "(a1, a2) \<in> set (findAllConnectablePairsInGrid R h g)"
  shows "a1 \<in> set (getVisibleCellsFromGrid R h g) \<and> a2 \<in> set (getVisibleCellsFromGrid R h g)"
proof -
  from assms obtain k where
    "(a1, a2) \<in> set (pairsOf (filter (\<lambda>a. pid (the (pattern (h ! a))) = k)
        (filter (\<lambda>a. pattern (h ! a) \<noteq> None) (getVisibleCellsFromGrid R h g))))"
    by (auto simp: findAllConnectablePairsInGrid_def Let_def)
  from pairsOf_members[OF this] show ?thesis by simp
qed

lemma first_pair_addr:
  assumes "length (findAllConnectablePairsInGrid R h g) \<noteq> 0"
    and "\<forall>r<nat (gridRowsRef R). \<forall>c<nat (gridColsRef R). n0 \<le> g ! r ! c"
  shows "n0 \<le> fst (findAllConnectablePairsInGrid R h g ! 0)
     \<and> n0 \<le> snd (findAllConnectablePairsInGrid R h g ! 0)"
proof -
  let ?p = "findAllConnectablePairsInGrid R h g ! 0"
  have "?p \<in> set (findAllConnectablePairsInGrid R h g)" using assms(1) by simp
  then have "(fst ?p, snd ?p) \<in> set (findAllConnectablePairsInGrid R h g)" by simp
  from pairs_addr[OF this] have m: "fst ?p \<in> set (getVisibleCellsFromGrid R h g)"
    "snd ?p \<in> set (getVisibleCellsFromGrid R h g)" by simp_all
  from visible_addr[OF m(1)] obtain r c where
    "r < nat (gridRowsRef R)" "c < nat (gridColsRef R)" "fst ?p = g ! r ! c" by blast
  with assms(2) have 1: "n0 \<le> fst ?p" by simp
  from visible_addr[OF m(2)] obtain r' c' where
    "r' < nat (gridRowsRef R)" "c' < nat (gridColsRef R)" "snd ?p = g ! r' ! c'" by blast
  with assms(2) have "n0 \<le> snd ?p" by simp
  with 1 show ?thesis by simp
qed

lemma simulateLoop_frame:
  assumes "\<forall>r<nat (gridRowsRef R). \<forall>c<nat (gridColsRef R). n0 \<le> g ! r ! c" and "a < n0"
  shows "snd (simulateLoop R g n e h) ! a = h ! a"
proof (induction n arbitrary: e h)
  case 0
  show ?case by simp
next
  case (Suc n)
  let ?ps = "findAllConnectablePairsInGrid R h g"
  show ?case
  proof (cases "length ?ps = 0")
    case True
    then show ?thesis by simp
  next
    case False
    from first_pair_addr[OF False assms(1)] assms(2)
    have ne: "fst (?ps ! 0) \<noteq> a" "snd (?ps ! 0) \<noteq> a" by auto
    let ?h1 = "h[fst (?ps ! 0) := (h ! fst (?ps ! 0))\<lparr>matched := True\<rparr>]"
    let ?h2 = "?h1[snd (?ps ! 0) := (?h1 ! snd (?ps ! 0))\<lparr>matched := True\<rparr>]"
    have h2: "?h2 ! a = h ! a" using ne by simp
    show ?thesis
    proof (cases "e + 2 \<ge> gridRowsRef R * gridColsRef R")
      case True
      with False h2 show ?thesis by (simp add: Let_def)
    next
      case f: False
      have "snd (simulateLoop R g (Suc n) e h) = snd (simulateLoop R g n (e + 2) ?h2)"
        using False f by (simp add: Let_def)
      with Suc.IH[of "e + 2" ?h2] h2 show ?thesis by simp
    qed
  qed
qed

lemma simulateLoop_length: "length (snd (simulateLoop R g n e h)) = length h"
proof (induction n arbitrary: e h)
  case 0
  show ?case by simp
next
  case (Suc n)
  show ?case using Suc.IH by (simp add: Let_def)
qed

lemma concat_rows_length:
  "length (concat (map (\<lambda>r. map (f r) [0 ..< cols]) [0 ..< rows])) = rows * cols"
  by (induction rows) simp_all

lemma concat_rows_nth:
  "r < rows \<Longrightarrow> c < cols \<Longrightarrow>
   concat (map (\<lambda>r. map (f r) [0 ..< cols]) [0 ..< rows]) ! (r * cols + c) = f r c"
proof (induction rows)
  case 0
  then show ?case by simp
next
  case (Suc n)
  let ?xs = "concat (map (\<lambda>r. map (f r) [0 ..< cols]) [0 ..< n])"
  have l: "length ?xs = n * cols" by (rule concat_rows_length)
  show ?case
  proof (cases "r < n")
    case True
    then have "Suc r \<le> n" by simp
    then have "Suc r * cols \<le> n * cols" by (rule mult_le_mono1)
    with Suc.prems(2) have "r * cols + c < n * cols" by simp
    with l Suc.IH[OF True Suc.prems(2)] show ?thesis by (simp add: nth_append)
  next
    case False
    with Suc.prems(1) have "r = n" by simp
    with l Suc.prems(2) show ?thesis by (simp add: nth_append)
  qed
qed

text \<open>
  The copy is faithful: the object at position (r, c) of the copied grid is a new object
  with the fields of the live cell at that position.
\<close>

lemma createGridCopy_cells:
  assumes "createGridCopy R h = (h1, g)"
    and "r < nat (gridRowsRef R)" and "c < nat (gridColsRef R)"
  shows "length h \<le> g ! r ! c"
    and "h1 ! (g ! r ! c) =
      \<lparr>row = int r, col = int c, pattern = pattern (h ! (gridRef R ! r ! c)),
       visible = visible (h ! (gridRef R ! r ! c)), matched = matched (h ! (gridRef R ! r ! c))\<rparr>"
proof -
  let ?rows = "nat (gridRowsRef R)" and ?cols = "nat (gridColsRef R)"
  let ?f = "\<lambda>r c. \<lparr>row = int r, col = int c, pattern = pattern (h ! (gridRef R ! r ! c)),
       visible = visible (h ! (gridRef R ! r ! c)), matched = matched (h ! (gridRef R ! r ! c))\<rparr>"
  have g: "g ! r ! c = length h + r * ?cols + c"
    using assms by (auto simp: createGridCopy_def Let_def)
  then show "length h \<le> g ! r ! c" by simp
  have "h1 = h @ concat (map (\<lambda>r. map (?f r) [0 ..< ?cols]) [0 ..< ?rows])"
    using assms(1) by (auto simp: createGridCopy_def Let_def)
  then have "h1 ! (g ! r ! c) = concat (map (\<lambda>r. map (?f r) [0 ..< ?cols]) [0 ..< ?rows]) ! (r * ?cols + c)"
    using g by (simp add: nth_append add.assoc)
  also have "\<dots> = ?f r c" using assms(2,3) by (rule concat_rows_nth)
  finally show "h1 ! (g ! r ! c) = ?f r c" .
qed

lemma createGridCopy_frame:
  assumes "createGridCopy R h = (h1, g)"
  shows "length h \<le> length h1" and "a < length h \<Longrightarrow> h1 ! a = h ! a"
    and "\<forall>r<nat (gridRowsRef R). \<forall>c<nat (gridColsRef R). length h \<le> g ! r ! c"
  using assms by (auto simp: createGridCopy_def Let_def nth_append)

lemma isBoardSolvable_frame:
  assumes "a < length h"
  shows "snd (isBoardSolvable R h) ! a = h ! a"
proof (cases "validateGameState (snapshot R h)")
  case False
  then show ?thesis by (simp add: isBoardSolvable_def)
next
  case True
  obtain h1 g where c: "createGridCopy R h = (h1, g)" by (cases "createGridCopy R h")
  have "snd (simulateLoop R g (nat (gridRowsRef R * gridColsRef R * 2)) 0 h1) ! a = h1 ! a"
    using createGridCopy_frame(3)[OF c] assms by (rule simulateLoop_frame)
  with createGridCopy_frame(2)[OF c assms] True c show ?thesis
    by (simp add: isBoardSolvable_def simulateElimination_def Let_def)
qed

lemma isBoardSolvable_length: "length h \<le> length (snd (isBoardSolvable R h))"
proof (cases "validateGameState (snapshot R h)")
  case False
  then show ?thesis by (simp add: isBoardSolvable_def)
next
  case True
  obtain h1 g where c: "createGridCopy R h = (h1, g)" by (cases "createGridCopy R h")
  with True createGridCopy_frame(1)[OF c] show ?thesis
    by (simp add: isBoardSolvable_def simulateElimination_def Let_def simulateLoop_length)
qed

text \<open>
  C7. isBoardSolvable does not change the live board: every cell object that existed before
  the call is the same after it, so when the board of the object refers to cell objects of
  the store, every cell of the live board has the same pattern, visible and matched values
  after the call as before. The simulation writes only to the objects createGridCopy made.
\<close>

theorem isBoardSolvable_preserves_live_grid:
  assumes "list_all (list_all (\<lambda>a. a < length h)) (gridRef R)"
  shows "deref (snd (isBoardSolvable R h)) (gridRef R) = deref h (gridRef R)
     \<and> take (length h) (snd (isBoardSolvable R h)) = h"
proof
  have "snd (isBoardSolvable R h) ! a = h ! a"
    if "rw \<in> set (gridRef R)" and "a \<in> set rw" for rw a
  proof -
    from that assms have "a < length h" unfolding list_all_iff by blast
    then show ?thesis by (rule isBoardSolvable_frame)
  qed
  then show "deref (snd (isBoardSolvable R h)) (gridRef R) = deref h (gridRef R)"
    unfolding deref_def by (intro map_cong refl) blast
  show "take (length h) (snd (isBoardSolvable R h)) = h"
    using isBoardSolvable_length[of h R] isBoardSolvable_frame[of _ h R]
    by (intro nth_equalityI) simp_all
qed

text \<open>
  The theorem on the 2 x 2 board held at the addresses 0 to 3: the check answers true, it
  has marked the copy of the first cell (address 4) as matched, and the live board is as
  before.
\<close>

theorem isBoardSolvable_preserves_live_grid_witness:
  "list_all (list_all (\<lambda>a. a < length heap2x2)) (gridRef algoRef2x2)
   \<and> deref heap2x2 (gridRef algoRef2x2) = board2x2
   \<and> fst (isBoardSolvable algoRef2x2 heap2x2)
   \<and> matched (snd (isBoardSolvable algoRef2x2 heap2x2) ! 4)
   \<and> deref (snd (isBoardSolvable algoRef2x2 heap2x2)) (gridRef algoRef2x2) = board2x2"
proof -
  have h: "list_all (list_all (\<lambda>a. a < length heap2x2)) (gridRef algoRef2x2)" by code_simp
  have d: "deref heap2x2 (gridRef algoRef2x2) = board2x2" by code_simp
  have r: "fst (isBoardSolvable algoRef2x2 heap2x2)"
    "matched (snd (isBoardSolvable algoRef2x2 heap2x2) ! 4)" by code_simp+
  from isBoardSolvable_preserves_live_grid[OF h] h d r show ?thesis by simp
qed

section \<open>Properties of board generation\<close>

subsection \<open>Shuffling permutes\<close>

lemma shuffleLoop_mset:
  "i < length xs \<or> i = 0 \<Longrightarrow> mset (fst (shuffleLoop rnd i xs k)) = mset xs"
proof (induction i arbitrary: xs k)
  case 0
  show ?case by simp
next
  case (Suc i)
  then have i: "Suc i < length xs" by simp
  let ?j = "rnd k mod (Suc i + 1)"
  have j: "?j < length xs" using i by (simp add: less_trans[OF _ i] mod_less_divisor le_less_trans[of _ "Suc i"])
  let ?xs = "xs[Suc i := xs ! ?j, ?j := xs ! Suc i]"
  have "mset ?xs = mset xs" using i j by (simp add: mset_swap)
  moreover have "mset (fst (shuffleLoop rnd i ?xs (k + 1))) = mset ?xs"
    using i by (intro Suc.IH) simp
  ultimately show ?case by (simp add: Let_def)
qed

lemma shuffleArray_mset: "mset (fst (shuffleArray rnd xs k)) = mset xs"
  unfolding shuffleArray_def by (rule shuffleLoop_mset) (cases xs; simp)

lemma shuffleTimes_mset: "mset (fst (shuffleTimes n rnd xs k)) = mset xs"
proof (induction n arbitrary: xs k)
  case 0
  show ?case by simp
next
  case (Suc n)
  obtain ys k' where s: "shuffleArray rnd xs k = (ys, k')" by (cases "shuffleArray rnd xs k")
  then have "mset ys = mset xs" using shuffleArray_mset[of rnd xs k] by simp
  with Suc.IH[of ys k'] s show ?case by simp
qed

lemma mset_filter_length:
  assumes "mset xs = mset ys"
  shows "length (filter P xs) = length (filter P ys)"
proof -
  have "mset (filter P xs) = mset (filter P ys)" using assms by (simp only: mset_filter)
  then show ?thesis by (rule mset_eq_length)
qed

subsection \<open>Counting pattern ids\<close>

lemma pairs_length: "length (concat (map (\<lambda>p. [p, p]) xs)) = 2 * length xs"
  by (induction xs) simp_all

lemma pairs_filter_length:
  "length (filter P (concat (map (\<lambda>p. [p, p]) xs))) = 2 * length (filter P xs)"
  by (induction xs) simp_all

lemma distinct_pid_count:
  "distinct (map pid xs) \<Longrightarrow>
   length (filter (\<lambda>p. pid p = i) xs) = (if i \<in> pid ` set xs then 1 else 0)"
  by (induction xs) auto

lemma countId_patterns:
  assumes "map pattern (gameVisibleCells g) = map Some ps"
  shows "countId g i = length (filter (\<lambda>p. pid p = i) ps)"
proof -
  have "countId g i
      = length (filter (\<lambda>x. case x of None \<Rightarrow> False | Some p \<Rightarrow> pid p = i)
                  (map pattern (gameVisibleCells g)))"
    unfolding countId_def filter_map by (simp add: comp_def)
  also have "\<dots> = length (filter (\<lambda>p. pid p = i) ps)"
    unfolding assms filter_map by (simp add: comp_def)
  finally show ?thesis .
qed

subsection \<open>The fill loops\<close>

lemma fillRow_length: "map length [fst (fillRow ps tot cls idx)] = [length cls]"
  by (induction cls arbitrary: idx) (simp_all add: split_beta)

lemma fillRow_idx:
  "snd (fillRow ps tot cls idx) =
     (if idx < length (take tot ps) then min (idx + length cls) (length (take tot ps))
      else idx)"
  by (induction cls arbitrary: idx) (auto simp: split_beta)

lemma fillRow_patterns:
  "map pattern (filter (\<lambda>cl. visible cl \<and> \<not> matched cl) (fst (fillRow ps tot cls idx)))
     = map Some (take (length cls) (drop idx (take tot ps)))"
proof (induction cls arbitrary: idx)
  case Nil
  show ?case by simp
next
  case (Cons cl cls)
  show ?case
  proof (cases "idx < length ps \<and> idx < tot")
    case True
    then have "idx < length (take tot ps)" by simp
    then have "drop idx (take tot ps) = ps ! idx # drop (Suc idx) (take tot ps)"
      using Cons_nth_drop_Suc[of idx "take tot ps"] by simp
    with True Cons.IH[of "idx + 1"] show ?thesis by (simp add: split_beta)
  next
    case False
    then have "drop idx (take tot ps) = []" by auto
    with False Cons.IH[of idx] show ?thesis by (simp add: split_beta)
  qed
qed

lemma fillRows_shape: "map length (fst (fillRows ps tot g idx)) = map length g"
proof (induction g arbitrary: idx)
  case Nil
  show ?case by simp
next
  case (Cons rw rws)
  show ?case using fillRow_length[of ps tot rw idx] Cons.IH by (simp add: split_beta)
qed

lemma fillRows_patterns:
  "map pattern (filter (\<lambda>cl. visible cl \<and> \<not> matched cl) (concat (fst (fillRows ps tot g idx))))
     = map Some (take (length (concat g)) (drop idx (take tot ps)))"
proof (induction g arbitrary: idx)
  case Nil
  show ?case by simp
next
  case (Cons rw rws)
  let ?L = "take tot ps"
  let ?idx = "snd (fillRow ps tot rw idx)"
  have d: "drop ?idx ?L = drop (idx + length rw) ?L"
    unfolding fillRow_idx by (auto simp: min_def)
  have "take (length rw + length (concat rws)) (drop idx ?L)
      = take (length rw) (drop idx ?L) @ take (length (concat rws)) (drop (idx + length rw) ?L)"
    by (simp add: take_add add.commute)
  with d fillRow_patterns[of ps tot rw idx] Cons.IH[of ?idx]
  show ?case by (simp add: split_beta)
qed

lemma fill_patterns:
  assumes "length ps \<le> tot" and "length ps \<le> length (concat g)"
  shows "map pattern (gameVisibleCells (fst (fillRows ps tot g 0))) = map Some ps"
  using assms fillRows_patterns[of ps tot g 0] by (simp add: gameVisibleCells_def)

subsection \<open>The reassignment loops\<close>

lemma reassignRow_length: "map length [fst (reassignRow qs cls idx)] = [length cls]"
  by (induction cls arbitrary: idx) (simp_all add: split_beta)

lemma reassignRow_idx:
  "idx + length (filter (\<lambda>cl. visible cl \<and> \<not> matched cl) cls) \<le> length qs \<Longrightarrow>
   snd (reassignRow qs cls idx) = idx + length (filter (\<lambda>cl. visible cl \<and> \<not> matched cl) cls)"
  by (induction cls arbitrary: idx) (auto simp: split_beta)

lemma reassignRow_patterns:
  "idx + length (filter (\<lambda>cl. visible cl \<and> \<not> matched cl) cls) \<le> length qs \<Longrightarrow>
   map pattern (filter (\<lambda>cl. visible cl \<and> \<not> matched cl) (fst (reassignRow qs cls idx)))
     = map Some (take (length (filter (\<lambda>cl. visible cl \<and> \<not> matched cl) cls)) (drop idx qs))"
proof (induction cls arbitrary: idx)
  case Nil
  show ?case by simp
next
  case (Cons cl cls)
  show ?case
  proof (cases "visible cl \<and> \<not> matched cl")
    case True
    with Cons.prems have i: "idx < length qs"
      and r: "(idx + 1) + length (filter (\<lambda>cl. visible cl \<and> \<not> matched cl) cls) \<le> length qs"
      by simp_all
    have "drop idx qs = qs ! idx # drop (Suc idx) qs"
      using Cons_nth_drop_Suc[OF i] by simp
    with True i Cons.IH[OF r] show ?thesis by (simp add: split_beta)
  next
    case False
    then consider "\<not> visible cl" | "matched cl" by blast
    then show ?thesis
    proof cases
      case 1
      with Cons.prems Cons.IH[of idx] show ?thesis by (simp add: split_beta)
    next
      case 2
      with Cons.prems Cons.IH[of idx] show ?thesis by (simp add: split_beta)
    qed
  qed
qed

lemma reassignRows_shape: "map length (fst (reassignRows qs g idx)) = map length g"
proof (induction g arbitrary: idx)
  case Nil
  show ?case by simp
next
  case (Cons rw rws)
  show ?case using reassignRow_length[of qs rw idx] Cons.IH by (simp add: split_beta)
qed

lemma reassignRows_patterns:
  "idx + length (filter (\<lambda>cl. visible cl \<and> \<not> matched cl) (concat g)) \<le> length qs \<Longrightarrow>
   map pattern (filter (\<lambda>cl. visible cl \<and> \<not> matched cl) (concat (fst (reassignRows qs g idx))))
     = map Some (take (length (filter (\<lambda>cl. visible cl \<and> \<not> matched cl) (concat g)))
                   (drop idx qs))"
proof (induction g arbitrary: idx)
  case Nil
  show ?case by simp
next
  case (Cons rw rws)
  let ?v = "\<lambda>cl. visible cl \<and> \<not> matched cl"
  let ?n = "length (filter ?v rw)"
  from Cons.prems have a: "idx + ?n \<le> length qs"
    and b: "(idx + ?n) + length (filter ?v (concat rws)) \<le> length qs" by simp_all
  have i: "snd (reassignRow qs rw idx) = idx + ?n" using a by (rule reassignRow_idx)
  have "take (?n + length (filter ?v (concat rws))) (drop idx qs)
      = take ?n (drop idx qs) @ take (length (filter ?v (concat rws))) (drop (idx + ?n) qs)"
    by (simp add: take_add add.commute)
  with reassignRow_patterns[OF a] Cons.IH[OF b] i
  show ?case by (simp add: split_beta)
qed

lemma collected_patterns:
  "map pattern cls = map Some ps \<Longrightarrow>
   map (\<lambda>cl. the (pattern cl)) (filter (\<lambda>cl. pattern cl \<noteq> None) cls) = ps"
  by (induction cls arbitrary: ps) auto

lemma deepReshuffleGrid_patterns:
  assumes "map pattern (gameVisibleCells g) = map Some ps"
  shows "\<exists>qs. map pattern (gameVisibleCells (fst (deepReshuffleGrid rnd g k))) = map Some qs
           \<and> mset qs = mset ps"
proof -
  let ?pats = "map (\<lambda>cl. the (pattern cl)) (filter (\<lambda>cl. pattern cl \<noteq> None) (gameVisibleCells g))"
  have p: "?pats = ps" using assms by (rule collected_patterns)
  obtain qs k' where s: "shuffleTimes 5 rnd ps k = (qs, k')" by (cases "shuffleTimes 5 rnd ps k")
  then have m: "mset qs = mset ps" using shuffleTimes_mset[of 5 rnd ps k] by simp
  then have "length qs = length ps" by (rule mset_eq_length)
  also have "\<dots> = length (gameVisibleCells g)" using assms by (metis length_map)
  finally have l: "length (gameVisibleCells g) = length qs" by simp
  then have "0 + length (filter (\<lambda>cl. visible cl \<and> \<not> matched cl) (concat g)) \<le> length qs"
    by (simp add: gameVisibleCells_def)
  from reassignRows_patterns[OF this] l
  have "map pattern (gameVisibleCells (fst (reassignRows qs g 0))) = map Some qs"
    by (simp add: gameVisibleCells_def)
  moreover have "fst (deepReshuffleGrid rnd g k) = fst (reassignRows qs g 0)"
    using p s by (simp add: deepReshuffleGrid_def Let_def)
  ultimately show ?thesis using m by auto
qed

lemma deepReshuffleGrid_shape: "map length (fst (deepReshuffleGrid rnd g k)) = map length g"
  by (simp add: deepReshuffleGrid_def Let_def split_beta reassignRows_shape)

lemma deepReshuffleGrid_countId:
  assumes "list_all (\<lambda>cl. pattern cl \<noteq> None) (gameVisibleCells g)"
  shows "countId (fst (deepReshuffleGrid rnd g k)) i = countId g i"
proof -
  have "map pattern (gameVisibleCells g) = map Some (map (\<lambda>cl. the (pattern cl)) (gameVisibleCells g))"
    using assms unfolding list_all_iff by (auto simp: comp_def)
  from deepReshuffleGrid_patterns[OF this] obtain qs where
    q: "map pattern (gameVisibleCells (fst (deepReshuffleGrid rnd g k))) = map Some qs"
    and m: "mset qs = mset (map (\<lambda>cl. the (pattern cl)) (gameVisibleCells g))" by blast
  have "countId (fst (deepReshuffleGrid rnd g k)) i = length (filter (\<lambda>p. pid p = i) qs)"
    using q by (rule countId_patterns)
  also have "\<dots> = length (filter (\<lambda>p. pid p = i) (map (\<lambda>cl. the (pattern cl)) (gameVisibleCells g)))"
    using m by (rule mset_filter_length)
  also have "\<dots> = countId g i"
    using countId_patterns[OF \<open>map pattern (gameVisibleCells g)
        = map Some (map (\<lambda>cl. the (pattern cl)) (gameVisibleCells g))\<close>, of i] by simp
  finally show ?thesis .
qed

subsection \<open>The retry loop\<close>

lemma fillLoop_invariant:
  assumes "\<And>s. Q s \<Longrightarrow> \<not> isSolvable s \<Longrightarrow> retryCount s < maxRetries \<Longrightarrow>
             \<exists>s'. fillStep sv rnd rows cols avail s = Some s' \<and> Q s'"
    and "Q st"
  shows "\<exists>st'. fillLoop sv rnd rows cols avail st = Some st' \<and> Q st'
           \<and> (isSolvable st' \<or> \<not> retryCount st' < maxRetries)"
  using assms
proof (induction sv rnd rows cols avail st rule: fillLoop.induct)
  case (1 sv rnd rows cols avail st)
  show ?case
  proof (cases "\<not> isSolvable st \<and> retryCount st < maxRetries")
    case True
    with "1.prems" obtain s' where s: "fillStep sv rnd rows cols avail st = Some s'" and q: "Q s'"
      by blast
    have "\<exists>st'. fillLoop sv rnd rows cols avail s' = Some st' \<and> Q st'
           \<and> (isSolvable st' \<or> \<not> retryCount st' < maxRetries)"
      using True s "1.prems"(1) q by (rule "1.IH")
    moreover have "fillLoop sv rnd rows cols avail st = fillLoop sv rnd rows cols avail s'"
      using True s by (subst fillLoop.simps) simp
    ultimately show ?thesis by simp
  next
    case False
    then have "fillLoop sv rnd rows cols avail st = Some st"
      by (subst fillLoop.simps) auto
    with False "1.prems"(2) show ?thesis by auto
  qed
qed

lemma shape_nonempty: "map length g = map length g0 \<Longrightarrow> g0 \<noteq> [] \<Longrightarrow> \<exists>A. LinkGameAlgorithm g = Some A"
  by (cases g) (auto simp: LinkGameAlgorithm_def)

lemma shape_concat: "map length g = map length g0 \<Longrightarrow> length (concat g) = length (concat g0)"
  by (simp add: length_concat)

lemma fillStep_invariant:
  assumes cfg: "g0 \<noteq> []" "2 * length avail \<le> rows * cols" "2 * length avail \<le> length (concat g0)"
    and inv: "fillInv sv avail g0 s"
    and c: "\<not> isSolvable s" "retryCount s < maxRetries"
  shows "\<exists>s'. fillStep sv rnd rows cols avail s = Some s' \<and> fillInv sv avail g0 s'"
proof -
  let ?pairs = "concat (map (\<lambda>p. [p, p]) avail)"
  have even: "\<not> length ?pairs mod 2 \<noteq> 0" by (simp add: pairs_length)
  obtain sh k1 where sh: "shuffleArray rnd ?pairs (draws s) = (sh, k1)"
    by (cases "shuffleArray rnd ?pairs (draws s)")
  have m: "mset sh = mset ?pairs" using shuffleArray_mset[of rnd ?pairs "draws s"] sh by simp
  then have l: "length sh = 2 * length avail" using mset_eq_length pairs_length by metis
  let ?g1 = "fst (fillRows sh (rows * cols) (board s) 0)"
  have sh0: "map length (board s) = map length g0" using inv by (simp add: fillInv_def)
  have sh1: "map length ?g1 = map length g0" using sh0 by (simp add: fillRows_shape)
  obtain A1 where a1: "LinkGameAlgorithm ?g1 = Some A1" using shape_nonempty[OF sh1 cfg(1)] by blast
  have "map pattern (gameVisibleCells ?g1) = map Some sh"
    using cfg(2,3) l shape_concat[OF sh0] by (intro fill_patterns) simp_all
  then have f1: "filledWith avail ?g1" using m unfolding filledWith_def by blast
  obtain g2 k2 where d: "deepReshuffleGrid rnd ?g1 k1 = (g2, k2)"
    by (cases "deepReshuffleGrid rnd ?g1 k1")
  have sh2: "map length g2 = map length g0"
    using deepReshuffleGrid_shape[of rnd ?g1 k1] d sh1 by simp
  obtain A2 where a2: "LinkGameAlgorithm g2 = Some A2" using shape_nonempty[OF sh2 cfg(1)] by blast
  have f2: "filledWith avail g2"
  proof -
    from f1 obtain ps where p: "map pattern (gameVisibleCells ?g1) = map Some ps"
      and pm: "mset ps = mset ?pairs" unfolding filledWith_def by blast
    from deepReshuffleGrid_patterns[OF p, of rnd k1] d pm show ?thesis
      unfolding filledWith_def by auto
  qed
  have i: "iterations s = retryCount s" "deepReshuffles s = 0"
    using inv c by (auto simp: fillInv_def)
  have r: "retryCount s < maxRetries" by (rule c(2))
  consider (invalid) "\<not> validateGameState A1"
    | (solved) "validateGameState A1" "sv A1"
    | (deep) "validateGameState A1" "\<not> sv A1" "retryCount s + 1 \<ge> maxRetries"
    | (retry) "validateGameState A1" "\<not> sv A1" "\<not> retryCount s + 1 \<ge> maxRetries"
    by blast
  then show ?thesis
  proof cases
    case invalid
    have "fillStep sv rnd rows cols avail s
        = Some (s\<lparr>iterations := iterations s + 1, board := ?g1, draws := k1,
                  retryCount := retryCount s + 1\<rparr>)"
      using even sh a1 invalid by (simp add: fillStep_def Let_def)
    moreover have "fillInv sv avail g0 (s\<lparr>iterations := iterations s + 1, board := ?g1,
        draws := k1, retryCount := retryCount s + 1\<rparr>)"
      using sh1 f1 i r c(1) by (simp add: fillInv_def)
    ultimately show ?thesis by blast
  next
    case solved
    have "fillStep sv rnd rows cols avail s
        = Some (s\<lparr>iterations := iterations s + 1, board := ?g1, draws := k1,
                  isSolvable := True\<rparr>)"
      using even sh a1 solved by (simp add: fillStep_def Let_def)
    moreover have "fillInv sv avail g0 (s\<lparr>iterations := iterations s + 1, board := ?g1,
        draws := k1, isSolvable := True\<rparr>)"
      using sh1 f1 i r a1 solved inv by (simp add: fillInv_def)
    ultimately show ?thesis by blast
  next
    case deep
    have "fillStep sv rnd rows cols avail s
        = Some (s\<lparr>iterations := iterations s + 1, board := g2, draws := k2,
                  retryCount := retryCount s + 1, isSolvable := sv A2,
                  deepReshuffles := deepReshuffles s + 1\<rparr>)"
      using even sh a1 deep d a2 by (simp add: fillStep_def Let_def)
    moreover have "fillInv sv avail g0 (s\<lparr>iterations := iterations s + 1, board := g2,
        draws := k2, retryCount := retryCount s + 1, isSolvable := sv A2,
        deepReshuffles := deepReshuffles s + 1\<rparr>)"
      using sh2 f2 i r a2 deep by (simp add: fillInv_def)
    ultimately show ?thesis by blast
  next
    case retry
    have "fillStep sv rnd rows cols avail s
        = Some (s\<lparr>iterations := iterations s + 1, board := ?g1, draws := k1,
                  retryCount := retryCount s + 1, isSolvable := False\<rparr>)"
      using even sh a1 retry by (simp add: fillStep_def Let_def)
    moreover have "fillInv sv avail g0 (s\<lparr>iterations := iterations s + 1, board := ?g1,
        draws := k1, retryCount := retryCount s + 1, isSolvable := False\<rparr>)"
      using sh1 f1 i r retry by (simp add: fillInv_def)
    ultimately show ?thesis by blast
  qed
qed

lemma rect_concat_length:
  "\<forall>rw\<in>set g. length rw = cols \<Longrightarrow> length (concat g) = length g * cols"
  by (induction g) auto

lemma fillGridWithPatterns_result:
  assumes "g \<noteq> []" and "list_all (\<lambda>rw. length rw = cols) g" and "length g = rows"
    and "2 * length (take patternCount patterns) \<le> rows * cols"
  shows "\<exists>st. fillGridWithPatterns sv rnd rows cols patterns patternCount g = Some st
           \<and> fillInv sv (take patternCount patterns) g st
           \<and> (isSolvable st \<or> retryCount st = maxRetries)"
proof -
  let ?avail = "take patternCount patterns"
  let ?init = "\<lparr>board = g, retryCount = 0, isSolvable = False, draws = 0, iterations = 0,
            deepReshuffles = 0\<rparr>"
  have "length (concat g) = rows * cols"
    using assms(2,3) rect_concat_length[of g cols] unfolding list_all_iff by simp
  with assms(4) have cap: "2 * length ?avail \<le> length (concat g)" by simp
  have init: "fillInv sv ?avail g ?init" by (simp add: fillInv_def)
  have "\<exists>st'. fillLoop sv rnd rows cols ?avail ?init = Some st' \<and> fillInv sv ?avail g st'
           \<and> (isSolvable st' \<or> \<not> retryCount st' < maxRetries)"
    using fillStep_invariant[OF assms(1) assms(4) cap] init
    by (intro fillLoop_invariant[where Q = "fillInv sv ?avail g"]) blast+
  then obtain st where "fillLoop sv rnd rows cols ?avail ?init = Some st"
    and "fillInv sv ?avail g st" and "isSolvable st \<or> \<not> retryCount st < maxRetries" by blast
  moreover from this have "isSolvable st \<or> retryCount st = maxRetries"
    by (auto simp: fillInv_def)
  ultimately show ?thesis by (simp add: fillGridWithPatterns_def Let_def)
qed

lemma filledWith_countId:
  assumes "filledWith avail g" and "distinct (map pid avail)"
  shows "countId g i = (if i \<in> set (map pid avail) then 2 else 0)"
proof -
  from assms(1) obtain ps where p: "map pattern (gameVisibleCells g) = map Some ps"
    and m: "mset ps = mset (concat (map (\<lambda>p. [p, p]) avail))" unfolding filledWith_def by blast
  have "countId g i = length (filter (\<lambda>p. pid p = i) ps)" using p by (rule countId_patterns)
  also have "\<dots> = length (filter (\<lambda>p. pid p = i) (concat (map (\<lambda>p. [p, p]) avail)))"
    using m by (rule mset_filter_length)
  also have "\<dots> = 2 * length (filter (\<lambda>p. pid p = i) avail)" by (rule pairs_filter_length)
  also have "\<dots> = (if i \<in> set (map pid avail) then 2 else 0)"
    using distinct_pid_count[OF assms(2), of i] by simp
  finally show ?thesis .
qed

subsection \<open>Claims on board generation\<close>

lemma all_hold_patterns:
  "map pattern cls = map Some ps \<Longrightarrow> list_all (\<lambda>cl. pattern cl \<noteq> None) cls"
  by (induction cls arbitrary: ps) auto

text \<open>
  C6. On a valid configuration (a board of gridRows rows of gridCols cells each, pattern
  ids pairwise distinct, twice the number of chosen patterns at most gridRows x gridCols),
  fillGridWithPatterns returns, by whichever path (also through deepReshuffleGrid), a board
  on which every pattern id is held by an even number of visible, unmatched cells: by
  exactly 2 for an id of a chosen pattern and by 0 for every other id. deepReshuffleGrid
  keeps the count of every id on a board whose visible, unmatched cells all hold a pattern,
  as they do on every board fillGridWithPatterns has filled.
\<close>

theorem generation_parity:
  assumes "g \<noteq> []" and "list_all (\<lambda>rw. length rw = cols) g" and "length g = rows"
    and "distinct (map pid patterns)"
    and "2 * length (take patternCount patterns) \<le> rows * cols"
  shows "(case fillGridWithPatterns sv rnd rows cols patterns patternCount g of
            None \<Rightarrow> False
          | Some st \<Rightarrow>
              countId (board st) i
                = (if i \<in> set (map pid (take patternCount patterns)) then 2 else 0)
              \<and> even (countId (board st) i)
              \<and> list_all (\<lambda>cl. pattern cl \<noteq> None) (gameVisibleCells (board st)))
     \<and> (list_all (\<lambda>cl. pattern cl \<noteq> None) (gameVisibleCells b)
          \<longrightarrow> countId (fst (deepReshuffleGrid rnd b k)) i = countId b i)"
proof
  let ?avail = "take patternCount patterns"
  from fillGridWithPatterns_result[OF assms(1,2,3,5), where sv = sv and rnd = rnd] obtain st where
    r: "fillGridWithPatterns sv rnd rows cols patterns patternCount g = Some st"
    and inv: "fillInv sv ?avail g st" and e: "isSolvable st \<or> retryCount st = maxRetries"
    by blast
  from inv have i1: "isSolvable st \<longrightarrow> 0 < iterations st"
    and i2: "\<not> isSolvable st \<longrightarrow> iterations st = retryCount st"
    and i3: "0 < iterations st \<longrightarrow> filledWith ?avail (board st)"
    by (simp_all add: fillInv_def)
  from i1 i2 e have "0 < iterations st" by (auto simp: maxRetries_def)
  with i3 have f: "filledWith ?avail (board st)" by simp
  have "distinct (map pid ?avail)" using assms(4) by (simp add: take_map[symmetric])
  with f have c: "countId (board st) i = (if i \<in> set (map pid ?avail) then 2 else 0)"
    by (rule filledWith_countId)
  from f obtain ps where "map pattern (gameVisibleCells (board st)) = map Some ps"
    unfolding filledWith_def by blast
  then have "list_all (\<lambda>cl. pattern cl \<noteq> None) (gameVisibleCells (board st))"
    by (rule all_hold_patterns)
  with r c show "case fillGridWithPatterns sv rnd rows cols patterns patternCount g of
            None \<Rightarrow> False
          | Some st \<Rightarrow>
              countId (board st) i
                = (if i \<in> set (map pid (take patternCount patterns)) then 2 else 0)
              \<and> even (countId (board st) i)
              \<and> list_all (\<lambda>cl. pattern cl \<noteq> None) (gameVisibleCells (board st))"
    by simp
  show "list_all (\<lambda>cl. pattern cl \<noteq> None) (gameVisibleCells b)
          \<longrightarrow> countId (fst (deepReshuffleGrid rnd b k)) i = countId b i"
    using deepReshuffleGrid_countId[of b rnd k i] by blast
qed

text \<open>
  The theorem on the configuration of the game at level 5 (a board of 8 rows and 10
  columns, the first 30 of the generated patterns), with a validation that always fails, so
  that the retries are used up and the board goes through deepReshuffleGrid: the ids 1 and
  30 are each held by two cells and the id 31 by none.
\<close>

theorem generation_parity_witness:
  "initializeGrid 8 10 \<noteq> [] \<and> list_all (\<lambda>rw. length rw = 10) (initializeGrid 8 10)
   \<and> length (initializeGrid 8 10) = 8 \<and> distinct (map pid generatePatterns)
   \<and> levelPatterns 5 = Some 30
   \<and> 2 * length (take 30 generatePatterns) \<le> 8 * (10::nat)
   \<and> (\<exists>st. fillGridWithPatterns (\<lambda>A. False) (\<lambda>k. 3 * k + 1) 8 10 generatePatterns 30
              (initializeGrid 8 10) = Some st
        \<and> countId (board st) 1 = 2 \<and> countId (board st) 30 = 2 \<and> countId (board st) 31 = 0)"
proof -
  have h: "initializeGrid 8 10 \<noteq> []" "list_all (\<lambda>rw. length rw = 10) (initializeGrid 8 10)"
    "length (initializeGrid 8 10) = 8" "distinct (map pid generatePatterns)"
    "2 * length (take 30 generatePatterns) \<le> 8 * (10::nat)"
    by code_simp+
  have l: "levelPatterns 5 = Some 30" by code_simp
  have ids: "1 \<in> set (map pid (take 30 generatePatterns))"
    "30 \<in> set (map pid (take 30 generatePatterns))"
    "31 \<notin> set (map pid (take 30 generatePatterns))"
    by code_simp+
  let ?F = "fillGridWithPatterns (\<lambda>A. False) (\<lambda>k. 3 * k + 1) 8 10 generatePatterns 30
              (initializeGrid 8 10)"
  note t = generation_parity[OF h, where sv = "\<lambda>A. False" and rnd = "\<lambda>k. 3 * k + 1"
      and b = "initializeGrid 8 10" and k = 0]
  from t[where i = 1] obtain st where r: "?F = Some st" by (cases ?F) auto
  from t[where i = 1] r ids(1) have c1: "countId (board st) 1 = 2" by simp
  from t[where i = 30] r ids(2) have c2: "countId (board st) 30 = 2" by simp
  from t[where i = 31] r ids(3) have c3: "countId (board st) 31 = 0" by simp
  from h l r c1 c2 c3 show ?thesis by blast
qed

text \<open>
  C8. On a valid configuration fillGridWithPatterns returns: the retry loop runs at most
  100 times, deepReshuffleGrid is called at most once, and the loop ends with a board of
  the same dimensions that either has passed the validation or is the board left when the
  100 retries are used up.
\<close>

theorem generation_terminates:
  assumes "g \<noteq> []" and "list_all (\<lambda>rw. length rw = cols) g" and "length g = rows"
    and "2 * length (take patternCount patterns) \<le> rows * cols"
  shows "case fillGridWithPatterns sv rnd rows cols patterns patternCount g of
           None \<Rightarrow> False
         | Some st \<Rightarrow>
             iterations st \<le> 100 \<and> retryCount st \<le> 100 \<and> deepReshuffles st \<le> 1
             \<and> (isSolvable st \<or> retryCount st = 100)
             \<and> map length (board st) = map length g
             \<and> (isSolvable st \<longrightarrow>
                  (case LinkGameAlgorithm (board st) of None \<Rightarrow> False | Some A \<Rightarrow> sv A))"
proof -
  from fillGridWithPatterns_result[OF assms, where sv = sv and rnd = rnd] obtain st where
    r: "fillGridWithPatterns sv rnd rows cols patterns patternCount g = Some st"
    and inv: "fillInv sv (take patternCount patterns) g st"
    and e: "isSolvable st \<or> retryCount st = maxRetries"
    by blast
  from inv have "iterations st \<le> maxRetries" "retryCount st \<le> maxRetries"
    "deepReshuffles st = 0 \<or> deepReshuffles st = 1 \<and> retryCount st = maxRetries"
    "map length (board st) = map length g"
    "isSolvable st \<longrightarrow>
       (case LinkGameAlgorithm (board st) of None \<Rightarrow> False | Some A \<Rightarrow> sv A)"
    by (simp_all add: fillInv_def)
  moreover from this(3) have "deepReshuffles st \<le> 1" by auto
  ultimately show ?thesis using r e unfolding maxRetries_def by simp
qed

text \<open>
  The theorem on the configuration of the game at level 1 (8 rows, 10 columns, 10
  patterns), once with a validation that always fails and once with one that always
  succeeds.
\<close>

theorem generation_terminates_witness:
  "initializeGrid 8 10 \<noteq> [] \<and> list_all (\<lambda>rw. length rw = 10) (initializeGrid 8 10)
   \<and> length (initializeGrid 8 10) = 8
   \<and> levelPatterns 1 = Some 10
   \<and> 2 * length (take 10 generatePatterns) \<le> 8 * (10::nat)
   \<and> (\<exists>st. fillGridWithPatterns (\<lambda>A. False) (\<lambda>k. 3 * k + 1) 8 10 generatePatterns 10
              (initializeGrid 8 10) = Some st
        \<and> \<not> isSolvable st \<and> retryCount st = 100 \<and> iterations st \<le> 100
        \<and> deepReshuffles st \<le> 1)
   \<and> (\<exists>st. fillGridWithPatterns (\<lambda>A. True) (\<lambda>k. 3 * k + 1) 8 10 generatePatterns 10
              (initializeGrid 8 10) = Some st
        \<and> iterations st \<le> 100 \<and> retryCount st \<le> 100 \<and> deepReshuffles st \<le> 1)"
proof -
  have h: "initializeGrid 8 10 \<noteq> []" "list_all (\<lambda>rw. length rw = 10) (initializeGrid 8 10)"
    "length (initializeGrid 8 10) = 8"
    "2 * length (take 10 generatePatterns) \<le> 8 * (10::nat)"
    by code_simp+
  have l: "levelPatterns 1 = Some 10" by code_simp
  let ?F = "fillGridWithPatterns (\<lambda>A. False) (\<lambda>k. 3 * k + 1) 8 10 generatePatterns 10
              (initializeGrid 8 10)"
  let ?T = "fillGridWithPatterns (\<lambda>A. True) (\<lambda>k. 3 * k + 1) 8 10 generatePatterns 10
              (initializeGrid 8 10)"
  note f = generation_terminates[OF h, where sv = "\<lambda>A. False" and rnd = "\<lambda>k. 3 * k + 1"]
  note t = generation_terminates[OF h, where sv = "\<lambda>A. True" and rnd = "\<lambda>k. 3 * k + 1"]
  from f obtain sf where rf: "?F = Some sf" by (cases ?F) auto
  from t obtain st where rt: "?T = Some st" by (cases ?T) auto
  from f rf have pf: "iterations sf \<le> 100" "retryCount sf \<le> 100" "deepReshuffles sf \<le> 1"
    "isSolvable sf \<or> retryCount sf = 100"
    "isSolvable sf \<longrightarrow>
       (case LinkGameAlgorithm (board sf) of None \<Rightarrow> False | Some A \<Rightarrow> False)"
    by simp_all
  then have nf: "\<not> isSolvable sf" by (auto split: option.splits)
  with pf(4) have "retryCount sf = 100" by simp
  moreover from t rt have "iterations st \<le> 100" "retryCount st \<le> 100" "deepReshuffles st \<le> 1"
    by simp_all
  ultimately show ?thesis using h l rf rt pf(1,3) nf by blast
qed

end
